theory Spec2Isabelle
  imports Main "HOL-Library.Sublist"
begin

section \<open>Data model\<close>

text \<open>
  The embedding follows \<^verbatim>\<open>aws_credentials.go\<close>. Go structs are records, struct
  embedding is record extension, a Go \<^verbatim>\<open>map[string][]byte\<close> is a map from
  strings to strings, and a pointer field that may be nil is an option.
\<close>

record AuthToken =
  AccessToken :: string
  Endpoint :: string

text \<open>\<^verbatim>\<open>api.ObjectMeta\<close>, embedded in secrets and service accounts.\<close>

record ObjectMeta =
  Name :: string

record Secret = ObjectMeta +
  Data :: "string \<rightharpoonup> string"
  Type :: string

text \<open>
  \<^verbatim>\<open>api.LocalObjectReference\<close>. Its one field is \<^verbatim>\<open>Name\<close>; the selector is called
  \<open>RefName\<close> here, \<open>Name\<close> being the field of \<open>ObjectMeta\<close>.
\<close>

datatype LocalObjectReference = LocalObjectReference (RefName: string)

record ServiceAccount = ObjectMeta +
  ImagePullSecrets :: "LocalObjectReference list"

text \<open>
  A value of Go's \<^verbatim>\<open>error\<close> interface, tagged by where it comes from: a token
  provider (the ECR and GCR clients, and the checks of \<^verbatim>\<open>getGCRAuthorizationKey\<close>) or
  the cluster store. \<open>Panic\<close> is a run-time panic (an index out of range, a nil
  dereference). No function of the program recovers, so a panic leaves every enclosing
  call at once, as a returned error does in \<^verbatim>\<open>process\<close>; it is kept apart because
  \<^verbatim>\<open>main\<close> treats the two differently.
\<close>

datatype store_error = NotFound | AlreadyExists | Unexpected string

datatype error = ProviderError string | StoreError store_error | Panic string

text \<open>\<^verbatim>\<open>err.Error()\<close>.\<close>

fun Error :: "error \<Rightarrow> string" where
  "Error (ProviderError m) = m"
| "Error (StoreError NotFound) = ''not found''"
| "Error (StoreError AlreadyExists) = ''already exists''"
| "Error (StoreError (Unexpected m)) = m"
| "Error (Panic m) = m"

text \<open>A line written by the \<^verbatim>\<open>log\<close> package, or printed on standard output.\<close>

datatype out_line = Log string | Stdout string

fun text_of :: "out_line \<Rightarrow> string" where
  "text_of (Log t) = t"
| "text_of (Stdout t) = t"

section \<open>Formatting\<close>

text \<open>
  \<^verbatim>\<open>fmt.Sprintf\<close> on string operands, for the format strings that are constants of the
  program: the verbs \<^verbatim>\<open>%s\<close> and \<^verbatim>\<open>%v\<close>, without flags or widths, insert the next
  operand as it is, and every other character of the format is copied. The operands are
  never read as formats. Beyond that the model follows Go where a format goes wrong:
  \<^verbatim>\<open>%%\<close> is a percent sign, a verb with no operand left prints \<^verbatim>\<open>%!s(MISSING)\<close>,
  operands left over are listed after \<^verbatim>\<open>%!(EXTRA\<close>, and any other verb letter is
  printed as a verb that does not apply to a string. The one format of the program that
  is not a constant is read by \<open>Errorf\<close> below.
\<close>

fun extra :: "string list \<Rightarrow> string" where
  "extra [] = []"
| "extra [a] = ''string='' @ a"
| "extra (a # b # as) = ''string='' @ a @ '', '' @ extra (b # as)"

fun Sprintf :: "string \<Rightarrow> string list \<Rightarrow> string" where
  "Sprintf [] args = (if args = [] then [] else ''%!(EXTRA '' @ extra args @ '')'')"
| "Sprintf [c] args =
     (if c = CHR ''%'' then ''%!(NOVERB)'' @ Sprintf [] args else c # Sprintf [] args)"
| "Sprintf (c # d # fmt) args =
     (if c \<noteq> CHR ''%'' then c # Sprintf (d # fmt) args
      else if d = CHR ''%'' then CHR ''%'' # Sprintf fmt args
      else if d = CHR ''s'' \<or> d = CHR ''v'' then
        (case args of
           [] \<Rightarrow> ''%!'' @ [d] @ ''(MISSING)'' @ Sprintf fmt []
         | a # as \<Rightarrow> a @ Sprintf fmt as)
      else
        (case args of
           [] \<Rightarrow> ''%!'' @ [d] @ ''(MISSING)'' @ Sprintf fmt []
         | a # as \<Rightarrow> ''%!'' @ [d] @ ''(string='' @ a @ '')'' @ Sprintf fmt as))"

definition dockerCfgTemplate :: string where
  \<open>dockerCfgTemplate = ''{"%s":{"username":"oauth2accesstoken","password":"%s","email":"none"}}''\<close>

definition dockerJSONTemplate :: string where
  \<open>dockerJSONTemplate = ''{"auths":{"%s":{"auth":"%s","email":"none"}}}''\<close>

section \<open>A format without operands\<close>

text \<open>
  \<^verbatim>\<open>getGCRAuthorizationKey\<close> hands a text that holds the token type to \<^verbatim>\<open>fmt.Errorf\<close>
  as the format, with no operand. A token type is any string, so the format may hold
  percent signs, flags, widths, precisions and argument indexes. \<open>Errorf\<close> reads it as
  \<^verbatim>\<open>doPrintf\<close> of the \<^verbatim>\<open>fmt\<close> package does when there is no operand: after a percent
  sign come the flags, an argument index, a width, a precision with its own index, a last
  index, and the verb. No index is good and no operand is there, so a verb other than the
  percent sign prints \<^verbatim>\<open>%!v(BADINDEX)\<close> or \<^verbatim>\<open>%!v(MISSING)\<close>, a star prints
  \<^verbatim>\<open>%!(BADWIDTH)\<close> or \<^verbatim>\<open>%!(BADPREC)\<close>, and a format that ends before its verb prints
  \<^verbatim>\<open>%!(NOVERB)\<close>. The verb is taken to be one byte.
\<close>

definition is_flag :: "char \<Rightarrow> bool" where
  "is_flag c = (c \<in> set ''#0+- '')"

definition is_digit :: "char \<Rightarrow> bool" where
  "is_digit c = (48 \<le> (of_char c :: nat) \<and> (of_char c :: nat) \<le> 57)"

text \<open>
  \<^verbatim>\<open>parsenum\<close>: the digits at the head of the format, whether there were any, and what
  follows them. When the number passes a million the scan gives up and moves to the end.
\<close>

fun parsenum :: "string \<Rightarrow> nat \<Rightarrow> bool \<Rightarrow> bool \<times> string" where
  "parsenum [] num isnum = (isnum, [])"
| "parsenum (c # cs) num isnum =
     (if is_digit c then
        (if num > 1000000 then (False, [])
         else parsenum cs (num * 10 + (of_char c - 48)) True)
      else (isnum, c # cs))"

text \<open>
  \<^verbatim>\<open>parseArgNumber\<close> on a format that starts with an opening bracket: how many bytes the
  index takes, and whether it is a number in brackets.
\<close>

definition parseArgNumber :: "string \<Rightarrow> nat \<times> bool" where
  "parseArgNumber format =
     (if length format < 3 then (1, False)
      else if CHR '']'' \<notin> set (tl format) then (1, False)
      else (let inside = takeWhile (\<lambda>c. c \<noteq> CHR '']'') (tl format)
            in (length inside + 2, parsenum inside 0 False = (True, []))))"

text \<open>
  The state of the scan of one directive: the format still to read, \<^verbatim>\<open>afterIndex\<close>,
  \<^verbatim>\<open>p.goodArgNum\<close>, and what was written.
\<close>

record scan =
  todo :: string
  afterIndex :: bool
  goodArgNum :: bool
  written :: string

text \<open>\<^verbatim>\<open>argNumber\<close> with no operands: an index, if there is one, is never in range.\<close>

definition argNumber :: "scan \<Rightarrow> scan" where
  "argNumber p =
     (case todo p of
        [] \<Rightarrow> p\<lparr>afterIndex := False\<rparr>
      | c # _ \<Rightarrow>
          if c \<noteq> CHR ''['' then p\<lparr>afterIndex := False\<rparr>
          else (case parseArgNumber (todo p) of
                  (wid, ok) \<Rightarrow>
                    p\<lparr>todo := drop wid (todo p), afterIndex := ok, goodArgNum := False\<rparr>))"

text \<open>A star, which asks for an operand that is not there, or a number.\<close>

definition star_or_num :: "string \<Rightarrow> scan \<Rightarrow> scan \<times> bool" where
  "star_or_num bad p =
     (case todo p of
        [] \<Rightarrow> (p, False)
      | c # rest \<Rightarrow>
          if c = CHR ''*'' then
            (p\<lparr>todo := rest, afterIndex := False, written := written p @ bad\<rparr>, False)
          else (case parsenum (todo p) 0 False of
                  (present, rest') \<Rightarrow> (p\<lparr>todo := rest'\<rparr>, present)))"

definition width :: "scan \<Rightarrow> scan" where
  "width p =
     (case star_or_num ''%!(BADWIDTH)'' p of
        (p', present) \<Rightarrow> if afterIndex p \<and> present then p'\<lparr>goodArgNum := False\<rparr> else p')"

definition precision :: "scan \<Rightarrow> scan" where
  "precision p =
     (case todo p of
        [] \<Rightarrow> p
      | c # rest \<Rightarrow>
          if c \<noteq> CHR ''.'' then p
          else fst (star_or_num ''%!(BADPREC)''
                      (argNumber (p\<lparr>todo := rest,
                                     goodArgNum := goodArgNum p \<and> \<not> afterIndex p\<rparr>))))"

definition lastIndex :: "scan \<Rightarrow> scan" where
  "lastIndex p = (if afterIndex p then p else argNumber p)"

definition verb :: "scan \<Rightarrow> scan" where
  "verb p =
     (case todo p of
        [] \<Rightarrow> p\<lparr>written := written p @ ''%!(NOVERB)''\<rparr>
      | c # rest \<Rightarrow>
          p\<lparr>todo := rest,
            written := written p @
              (if c = CHR ''%'' then ''%''
               else if \<not> goodArgNum p then ''%!'' @ [c] @ ''(BADINDEX)''
               else ''%!'' @ [c] @ ''(MISSING)'')\<rparr>)"

text \<open>One directive, from the byte after the percent sign on.\<close>

definition directive :: "string \<Rightarrow> scan" where
  "directive format =
     verb (lastIndex (precision (width (argNumber
       \<lparr>todo = dropWhile is_flag format, afterIndex = False, goodArgNum = True,
        written = []\<rparr>))))"

function Errorf :: "string \<Rightarrow> string" where
  "Errorf [] = []"
| "Errorf (c # format) =
     (if c \<noteq> CHR ''%'' then c # Errorf format
      else written (directive format) @ Errorf (todo (directive format)))"
  by pat_completeness auto

text \<open>No step of the scan makes the format longer, so the recursion ends.\<close>

termination
proof (relation "measure length")
  have num: "length (snd (parsenum s n b)) \<le> length s" for s n b
    by (induction s n b rule: parsenum.induct) auto
  have idx: "length (todo (argNumber p)) \<le> length (todo p)" for p
    by (auto simp: argNumber_def split: list.splits prod.splits)
  have star: "length (todo (fst (star_or_num bad p))) \<le> length (todo p)" for bad p
    using num [of "todo p" 0 False]
    by (auto simp: star_or_num_def split: list.splits prod.splits)
  have wid: "length (todo (width p)) \<le> length (todo p)" for p
    using star [of "''%!(BADWIDTH)''" p] by (auto simp: width_def split: prod.splits)
  have prec: "length (todo (precision p)) \<le> length (todo p)" for p
  proof (cases "todo p")
    case Nil
    then show ?thesis by (simp add: precision_def)
  next
    case (Cons c rest)
    let ?q = "p\<lparr>todo := rest, goodArgNum := goodArgNum p \<and> \<not> afterIndex p\<rparr>"
    have "length (todo (fst (star_or_num ''%!(BADPREC)'' (argNumber ?q))))
            \<le> length (todo (argNumber ?q))"
      by (rule star)
    also have "\<dots> \<le> length (todo ?q)" by (rule idx)
    finally show ?thesis using Cons by (simp add: precision_def)
  qed
  have last: "length (todo (lastIndex p)) \<le> length (todo p)" for p
    using idx [of p] by (simp add: lastIndex_def)
  have vb: "length (todo (verb p)) \<le> length (todo p)" for p
    by (auto simp: verb_def split: list.splits)
  have dir: "length (todo (directive format)) \<le> length format" for format
  proof -
    let ?p = "\<lparr>todo = dropWhile is_flag format, afterIndex = False, goodArgNum = True,
               written = []\<rparr>"
    have "length (todo (directive format))
            \<le> length (todo (lastIndex (precision (width (argNumber ?p)))))"
      unfolding directive_def by (rule vb)
    also have "\<dots> \<le> length (todo (precision (width (argNumber ?p))))" by (rule last)
    also have "\<dots> \<le> length (todo (width (argNumber ?p)))" by (rule prec)
    also have "\<dots> \<le> length (todo (argNumber ?p))" by (rule wid)
    also have "\<dots> \<le> length (todo ?p)" by (rule idx)
    also have "\<dots> \<le> length format" by (simp add: length_dropWhile_le)
    finally show ?thesis .
  qed
  show "wf (measure length)" by simp
  show "(format, c # format) \<in> measure length" for c :: char and format
    by simp
  show "(todo (directive format), c # format) \<in> measure length" for c :: char and format
    using dir [of format] by (simp add: less_Suc_eq_le)
qed

section \<open>Materializing a secret\<close>

definition generateSecretObj :: "string \<Rightarrow> string \<Rightarrow> bool \<Rightarrow> string \<Rightarrow> Secret" where
  "generateSecretObj token endpoint isJSONCfg secretName =
     (if isJSONCfg then
        \<lparr>Name = secretName,
         Data = [''.dockerconfigjson'' \<mapsto> Sprintf dockerJSONTemplate [endpoint, token]],
         Type = ''kubernetes.io/dockerconfigjson''\<rparr>
      else
        \<lparr>Name = secretName,
         Data = [''.dockercfg'' \<mapsto> Sprintf dockerCfgTemplate [endpoint, token]],
         Type = ''kubernetes.io/dockercfg''\<rparr>)"

section \<open>Token providers\<close>

text \<open>
  The two cloud clients are outside the program. What the program sees of them is the
  value each call returns, so a client is the function from the call's argument to that
  value, \<open>Inl\<close> carrying the message of a returned error.

  \<^verbatim>\<open>ecr.AuthorizationData\<close> has pointer fields, which may be nil.
\<close>

record AuthorizationData =
  AuthorizationToken :: "string option"
  ProxyEndpoint :: "string option"

text \<open>
  \<^verbatim>\<open>GetAuthorizationToken\<close>: from the \<^verbatim>\<open>RegistryIds\<close> of the input to an error or the
  \<^verbatim>\<open>AuthorizationData\<close> of the output.
\<close>

type_synonym ecrInterface = "string list \<Rightarrow> string + AuthorizationData list"

text \<open>
  An \<^verbatim>\<open>oauth2.Token\<close> as the program reads it: the access token and the results of the
  library's \<^verbatim>\<open>Valid()\<close> and \<^verbatim>\<open>Type()\<close> on it.
\<close>

record oauth2_Token =
  Token_AccessToken :: string
  Token_Valid :: bool
  Token_Type :: string

text \<open>A token source is the result of its \<^verbatim>\<open>Token()\<close> call.\<close>

type_synonym TokenSource = "string + oauth2_Token"

text \<open>\<^verbatim>\<open>DefaultTokenSource\<close>: from the scopes to an error or a token source.\<close>

type_synonym gcrInterface = "string list \<Rightarrow> string + TokenSource"

text \<open>The flag variables and \<^verbatim>\<open>awsAccountID\<close> that \<^verbatim>\<open>process\<close> reads.\<close>

record flags =
  argAWSSecretName :: string
  argGCRSecretName :: string
  argGCRURL :: string
  awsAccountID :: string

record controller =
  ecrClient :: ecrInterface
  gcrClient :: gcrInterface

text \<open>
  A provider returns the lines it wrote and its result. The text about the token type is
  made by \<^verbatim>\<open>fmt.Sprintf\<close> and then read once more, as a format, by \<^verbatim>\<open>fmt.Errorf\<close>.
\<close>

definition getGCRAuthorizationKey ::
  "flags \<Rightarrow> controller \<Rightarrow> out_line list \<times> (error + AuthToken)" where
  \<open>getGCRAuthorizationKey fl c =
     (case gcrClient c [''https://www.googleapis.com/auth/cloud-platform''] of
        Inl err \<Rightarrow> ([Log ''getting creds was nil''], Inl (ProviderError err))
      | Inr ts \<Rightarrow>
          (case ts of
             Inl err \<Rightarrow> ([], Inl (ProviderError err))
           | Inr token \<Rightarrow>
               if \<not> Token_Valid token then
                 ([], Inl (ProviderError (Errorf ''token was invalid'')))
               else if Token_Type token \<noteq> ''Bearer'' then
                 ([], Inl (ProviderError
                    (Errorf (Sprintf ''expected token type "Bearer" but got "%s"''
                       [Token_Type token]))))
               else ([], Inr \<lparr>AccessToken = Token_AccessToken token, Endpoint = argGCRURL fl\<rparr>)))\<close>

text \<open>
  \<^verbatim>\<open>resp.AuthorizationData[0]\<close> panics on an empty slice, and dereferencing a nil field
  of the first entry panics; the access token is read before the endpoint.
\<close>

definition getECRAuthorizationKey ::
  "flags \<Rightarrow> controller \<Rightarrow> out_line list \<times> (error + AuthToken)" where
  "getECRAuthorizationKey fl c =
     (case ecrClient c [awsAccountID fl] of
        Inl err \<Rightarrow> ([Stdout err], Inl (ProviderError err))
      | Inr resp \<Rightarrow>
          (case resp of
             [] \<Rightarrow> ([], Inl (Panic ''index out of range''))
           | token # _ \<Rightarrow>
               (case AuthorizationToken token of
                  None \<Rightarrow> ([], Inl (Panic ''nil pointer dereference''))
                | Some t \<Rightarrow>
                    (case ProxyEndpoint token of
                       None \<Rightarrow> ([], Inl (Panic ''nil pointer dereference''))
                     | Some e \<Rightarrow> ([], Inr \<lparr>AccessToken = t, Endpoint = e\<rparr>)))))"

record SecretGenerator =
  TokenGenFxn :: "unit \<Rightarrow> out_line list \<times> (error + AuthToken)"
  IsJSONCfg :: bool
  SecretName :: string

section \<open>The cluster store\<close>

text \<open>
  The cluster client is outside the program too: a store of secrets and service accounts
  keyed by namespace and name, with get, list, create and update. Every call the program
  issues is recorded in \<open>calls\<close>, in order. The store can fail any call: \<open>faults w n\<close>
  is the error, if any, with which the call number \<open>n\<close> (counted from 0 over the life of
  the process) fails without touching the store. Otherwise get fails with \<open>NotFound\<close> on a
  missing object, create with \<open>AlreadyExists\<close> on a present one, update with \<open>NotFound\<close>
  on a missing one; create and update store the object under its own name.

  For a service account the store keeps its list of image pull secrets; the object that
  get returns carries the name it was asked for. \<open>printed\<close> collects what the process
  writes.
\<close>

datatype kube_call =
    NamespacesList
  | SecretsGet string string
  | SecretsCreate string Secret
  | SecretsUpdate string Secret
  | ServiceAccountsGet string string
  | ServiceAccountsUpdate string ServiceAccount

record world =
  namespaces :: "string list"
  secrets :: "string \<times> string \<rightharpoonup> Secret"
  serviceAccounts :: "string \<times> string \<rightharpoonup> LocalObjectReference list"
  faults :: "nat \<Rightarrow> string option"
  calls :: "kube_call list"
  printed :: "out_line list"

definition issue :: "kube_call \<Rightarrow> world \<Rightarrow> string option \<times> world" where
  "issue k w = (faults w (length (calls w)), w\<lparr>calls := calls w @ [k]\<rparr>)"

definition write_out :: "out_line list \<Rightarrow> world \<Rightarrow> world" where
  "write_out ls w = w\<lparr>printed := printed w @ ls\<rparr>"

definition Namespaces_List :: "world \<Rightarrow> (error + string list) \<times> world" where
  "Namespaces_List w =
     (case issue NamespacesList w of
        (Some m, w') \<Rightarrow> (Inl (StoreError (Unexpected m)), w')
      | (None, w') \<Rightarrow> (Inr (namespaces w'), w'))"

definition Secrets_Get :: "string \<Rightarrow> string \<Rightarrow> world \<Rightarrow> (error + Secret) \<times> world" where
  "Secrets_Get ns name w =
     (case issue (SecretsGet ns name) w of
        (Some m, w') \<Rightarrow> (Inl (StoreError (Unexpected m)), w')
      | (None, w') \<Rightarrow>
          (case secrets w' (ns, name) of
             None \<Rightarrow> (Inl (StoreError NotFound), w')
           | Some x \<Rightarrow> (Inr x, w')))"

definition Secrets_Create :: "string \<Rightarrow> Secret \<Rightarrow> world \<Rightarrow> (error + Secret) \<times> world" where
  "Secrets_Create ns x w =
     (case issue (SecretsCreate ns x) w of
        (Some m, w') \<Rightarrow> (Inl (StoreError (Unexpected m)), w')
      | (None, w') \<Rightarrow>
          (case secrets w' (ns, Name x) of
             Some _ \<Rightarrow> (Inl (StoreError AlreadyExists), w')
           | None \<Rightarrow> (Inr x, w'\<lparr>secrets := (secrets w')((ns, Name x) \<mapsto> x)\<rparr>)))"

definition Secrets_Update :: "string \<Rightarrow> Secret \<Rightarrow> world \<Rightarrow> (error + Secret) \<times> world" where
  "Secrets_Update ns x w =
     (case issue (SecretsUpdate ns x) w of
        (Some m, w') \<Rightarrow> (Inl (StoreError (Unexpected m)), w')
      | (None, w') \<Rightarrow>
          (case secrets w' (ns, Name x) of
             None \<Rightarrow> (Inl (StoreError NotFound), w')
           | Some _ \<Rightarrow> (Inr x, w'\<lparr>secrets := (secrets w')((ns, Name x) \<mapsto> x)\<rparr>)))"

definition ServiceAccounts_Get ::
  "string \<Rightarrow> string \<Rightarrow> world \<Rightarrow> (error + ServiceAccount) \<times> world" where
  "ServiceAccounts_Get ns name w =
     (case issue (ServiceAccountsGet ns name) w of
        (Some m, w') \<Rightarrow> (Inl (StoreError (Unexpected m)), w')
      | (None, w') \<Rightarrow>
          (case serviceAccounts w' (ns, name) of
             None \<Rightarrow> (Inl (StoreError NotFound), w')
           | Some l \<Rightarrow> (Inr \<lparr>Name = name, ImagePullSecrets = l\<rparr>, w')))"

definition ServiceAccounts_Update ::
  "string \<Rightarrow> ServiceAccount \<Rightarrow> world \<Rightarrow> (error + ServiceAccount) \<times> world" where
  "ServiceAccounts_Update ns sa w =
     (case issue (ServiceAccountsUpdate ns sa) w of
        (Some m, w') \<Rightarrow> (Inl (StoreError (Unexpected m)), w')
      | (None, w') \<Rightarrow>
          (case serviceAccounts w' (ns, Name sa) of
             None \<Rightarrow> (Inl (StoreError NotFound), w')
           | Some _ \<Rightarrow>
               (Inr sa,
                w'\<lparr>serviceAccounts :=
                     (serviceAccounts w')((ns, Name sa) \<mapsto> ImagePullSecrets sa)\<rparr>)))"

section \<open>The reconciliation run\<close>

text \<open>
  The scan of \<^verbatim>\<open>serviceAccount.ImagePullSecrets\<close>: the first entry named
  \<open>secretName\<close> is overwritten in place and the scan stops. The result is the list and
  \<^verbatim>\<open>imagePullSecretFound\<close>.
\<close>

fun scanImagePullSecrets ::
  "string \<Rightarrow> LocalObjectReference list \<Rightarrow> LocalObjectReference list \<times> bool" where
  "scanImagePullSecrets secretName [] = ([], False)"
| "scanImagePullSecrets secretName (imagePullSecret # rest) =
     (if RefName imagePullSecret = secretName then (LocalObjectReference secretName # rest, True)
      else (case scanImagePullSecrets secretName rest of
              (rest', found) \<Rightarrow> (imagePullSecret # rest', found)))"

text \<open>The scan, then the append when nothing was found.\<close>

definition updateImagePullSecrets ::
  "string \<Rightarrow> LocalObjectReference list \<Rightarrow> LocalObjectReference list" where
  "updateImagePullSecrets secretName l =
     (case scanImagePullSecrets secretName l of
        (l', imagePullSecretFound) \<Rightarrow>
          if \<not> imagePullSecretFound then l' @ [LocalObjectReference secretName] else l')"

text \<open>
  The second half of the body of the namespace loop: the default service account is
  fetched, its list updated, and the account written back.
\<close>

definition process_serviceAccount ::
  "SecretGenerator \<Rightarrow> string \<Rightarrow> world \<Rightarrow> (error + unit) \<times> world" where
  "process_serviceAccount secretGenerator namespace w =
     (case ServiceAccounts_Get namespace ''default'' w of
        (Inl err, w1) \<Rightarrow> (Inl err, w1)
      | (Inr serviceAccount, w1) \<Rightarrow>
          (case ServiceAccounts_Update namespace
                  (serviceAccount\<lparr>ImagePullSecrets :=
                     updateImagePullSecrets (SecretName secretGenerator)
                       (ImagePullSecrets serviceAccount)\<rparr>) w1 of
             (Inl err, w2) \<Rightarrow> (Inl err, w2)
           | (Inr _, w2) \<Rightarrow> (Inr (), w2)))"

text \<open>
  The first half of the body of the namespace loop, after the \<^verbatim>\<open>kube-system\<close>
  test: the secret is looked up, then created or updated. Any error of the get leads to
  the create.
\<close>

definition process_secret ::
  "SecretGenerator \<Rightarrow> Secret \<Rightarrow> string \<Rightarrow> world \<Rightarrow> (error + unit) \<times> world" where
  "process_secret secretGenerator newSecret namespace w =
     (case Secrets_Get namespace (SecretName secretGenerator) w of
        (Inl _, w1) \<Rightarrow>
          (case Secrets_Create namespace newSecret w1 of
             (Inl err, w2) \<Rightarrow> (Inl err, w2)
           | (Inr _, w2) \<Rightarrow> (Inr (), w2))
      | (Inr _, w1) \<Rightarrow>
          (case Secrets_Update namespace newSecret w1 of
             (Inl err, w2) \<Rightarrow> (Inl err, w2)
           | (Inr _, w2) \<Rightarrow> (Inr (), w2)))"

text \<open>The whole body: the secret, then the service account.\<close>

definition process_namespace ::
  "SecretGenerator \<Rightarrow> Secret \<Rightarrow> string \<Rightarrow> world \<Rightarrow> (error + unit) \<times> world" where
  "process_namespace secretGenerator newSecret namespace w =
     (case process_secret secretGenerator newSecret namespace w of
        (Inl err, w1) \<Rightarrow> (Inl err, w1)
      | (Inr _, w1) \<Rightarrow> process_serviceAccount secretGenerator namespace w1)"

text \<open>The loop over \<^verbatim>\<open>namespaces.Items\<close>.\<close>

fun process_namespaces ::
  "SecretGenerator \<Rightarrow> Secret \<Rightarrow> string list \<Rightarrow> world \<Rightarrow> (error + unit) \<times> world" where
  "process_namespaces secretGenerator newSecret [] w = (Inr (), w)"
| "process_namespaces secretGenerator newSecret (namespace # rest) w =
     (if namespace = ''kube-system'' then process_namespaces secretGenerator newSecret rest w
      else (case process_namespace secretGenerator newSecret namespace w of
              (Inl err, w') \<Rightarrow> (Inl err, w')
            | (Inr _, w') \<Rightarrow> process_namespaces secretGenerator newSecret rest w'))"

text \<open>The body of the loop over the generators.\<close>

definition process_generator :: "SecretGenerator \<Rightarrow> world \<Rightarrow> (error + unit) \<times> world" where
  "process_generator secretGenerator w =
     (case TokenGenFxn secretGenerator () of
        (ls, Inl err) \<Rightarrow> (Inl err, write_out ls w)
      | (ls, Inr newToken) \<Rightarrow>
          (let newSecret = generateSecretObj (AccessToken newToken) (Endpoint newToken)
                             (IsJSONCfg secretGenerator) (SecretName secretGenerator)
           in case Namespaces_List (write_out ls w) of
                (Inl err, w1) \<Rightarrow> (Inl err, w1)
              | (Inr nss, w1) \<Rightarrow>
                  (case process_namespaces secretGenerator newSecret nss w1 of
                     (Inl err, w2) \<Rightarrow> (Inl err, w2)
                   | (Inr _, w2) \<Rightarrow>
                       (Inr (),
                        write_out
                          [Log (''Finished processing secret for: '' @ SecretName secretGenerator)]
                          w2))))"

fun process_generators :: "SecretGenerator list \<Rightarrow> world \<Rightarrow> (error + unit) \<times> world" where
  "process_generators [] w = (Inr (), w)"
| "process_generators (secretGenerator # rest) w =
     (case process_generator secretGenerator w of
        (Inl err, w') \<Rightarrow> (Inl err, w')
      | (Inr _, w') \<Rightarrow> process_generators rest w')"

text \<open>The two literals of the \<^verbatim>\<open>secretGenerators\<close> slice, and the slice.\<close>

definition gcrGenerator :: "flags \<Rightarrow> controller \<Rightarrow> SecretGenerator" where
  "gcrGenerator fl c =
     \<lparr>TokenGenFxn = (\<lambda>_. getGCRAuthorizationKey fl c), IsJSONCfg = False,
      SecretName = argGCRSecretName fl\<rparr>"

definition ecrGenerator :: "flags \<Rightarrow> controller \<Rightarrow> SecretGenerator" where
  "ecrGenerator fl c =
     \<lparr>TokenGenFxn = (\<lambda>_. getECRAuthorizationKey fl c), IsJSONCfg = True,
      SecretName = argAWSSecretName fl\<rparr>"

definition secretGenerators :: "flags \<Rightarrow> controller \<Rightarrow> SecretGenerator list" where
  "secretGenerators fl c = [gcrGenerator fl c, ecrGenerator fl c]"

definition process :: "flags \<Rightarrow> controller \<Rightarrow> world \<Rightarrow> (error + unit) \<times> world" where
  "process fl c w =
     process_generators (secretGenerators fl c) (write_out [Log ''Processing Credentials...''] w)"

section \<open>The main loop\<close>

text \<open>
  \<^verbatim>\<open>main\<close> from the first \<^verbatim>\<open>c.process()\<close> on. The loop never ends by itself, so the
  model is given the ticks that have fired so far, each with the cloud clients as they
  answer during that run, and returns where the process stands after them: waiting for
  the next tick, exited through \<^verbatim>\<open>log.Fatalf\<close> (status 1), or crashed by a panic.
\<close>

datatype proc = Waiting world | Exited nat world | Crashed string world

fun ticks :: "flags \<Rightarrow> controller list \<Rightarrow> world \<Rightarrow> proc" where
  "ticks fl [] w = Waiting w"
| "ticks fl (c # cs) w =
     (case process fl c (write_out [Log ''Refreshing credentials...''] w) of
        (Inl (Panic m), w') \<Rightarrow> Crashed m w'
      | (Inl err, w') \<Rightarrow>
          Exited 1
            (write_out [Log (Sprintf ''Failed to load ecr credentials: %v'' [Error err])] w')
      | (Inr _, w') \<Rightarrow> ticks fl cs w')"

text \<open>The error that the first run returns is dropped.\<close>

definition main :: "flags \<Rightarrow> controller \<Rightarrow> controller list \<Rightarrow> world \<Rightarrow> proc" where
  "main fl c cs w =
     (case process fl c w of
        (Inl (Panic m), w') \<Rightarrow> Crashed m w'
      | (_, w') \<Rightarrow> ticks fl cs w')"

section \<open>Reading the record of calls\<close>

text \<open>The namespace a call addresses; listing the namespaces addresses none.\<close>

fun call_namespace :: "kube_call \<Rightarrow> string option" where
  "call_namespace NamespacesList = None"
| "call_namespace (SecretsGet ns _) = Some ns"
| "call_namespace (SecretsCreate ns _) = Some ns"
| "call_namespace (SecretsUpdate ns _) = Some ns"
| "call_namespace (ServiceAccountsGet ns _) = Some ns"
| "call_namespace (ServiceAccountsUpdate ns _) = Some ns"

text \<open>
  The calls that the pass of one generator can issue: the list of the namespaces, and
  in a namespace other than \<^verbatim>\<open>kube-system\<close> the get of the generator's secret, the
  create or update of the secret materialized from the generator's token, the get of the
  default service account, and its update with a list that holds the secret's name.
\<close>

definition generator_secret :: "SecretGenerator \<Rightarrow> Secret option" where
  "generator_secret g =
     (case snd (TokenGenFxn g ()) of
        Inl _ \<Rightarrow> None
      | Inr newToken \<Rightarrow>
          Some (generateSecretObj (AccessToken newToken) (Endpoint newToken)
                  (IsJSONCfg g) (SecretName g)))"

fun generator_call :: "SecretGenerator \<Rightarrow> kube_call \<Rightarrow> bool" where
  "generator_call g NamespacesList = True"
| "generator_call g (SecretsGet ns n) = (ns \<noteq> ''kube-system'' \<and> n = SecretName g)"
| "generator_call g (SecretsCreate ns x) =
     (ns \<noteq> ''kube-system'' \<and> generator_secret g = Some x)"
| "generator_call g (SecretsUpdate ns x) =
     (ns \<noteq> ''kube-system'' \<and> generator_secret g = Some x)"
| "generator_call g (ServiceAccountsGet ns n) = (ns \<noteq> ''kube-system'' \<and> n = ''default'')"
| "generator_call g (ServiceAccountsUpdate ns sa) =
     (ns \<noteq> ''kube-system'' \<and> Name sa = ''default''
      \<and> LocalObjectReference (SecretName g) \<in> set (ImagePullSecrets sa))"

text \<open>How many entries of a list of image pull secrets carry a name.\<close>

definition count_refs :: "string \<Rightarrow> LocalObjectReference list \<Rightarrow> nat" where
  "count_refs n l = length (filter (\<lambda>r. RefName r = n) l)"

text \<open>Whether an error is a panic rather than a returned error value.\<close>

fun is_panic :: "error \<Rightarrow> bool" where
  "is_panic (Panic _) = True"
| "is_panic _ = False"

text \<open>Whether some line of the output carries the text of an error.\<close>

fun contains :: "string \<Rightarrow> string \<Rightarrow> bool" where
  "contains s [] = (s = [])"
| "contains s (c # cs) = (prefix s (c # cs) \<or> contains s cs)"

definition logged :: "error \<Rightarrow> out_line list \<Rightarrow> bool" where
  "logged err ls = list_ex (\<lambda>l. contains (Error err) (text_of l)) ls"

section \<open>Example inputs\<close>

text \<open>
  The default flag values, clients that answer well, and a cluster with the system
  namespace and one team namespace whose default service account lists one unrelated
  image pull secret.
\<close>

definition example_flags :: flags where
  "example_flags =
     \<lparr>argAWSSecretName = ''awsecr-cred'', argGCRSecretName = ''gcr-secret'',
      argGCRURL = ''https://gcr.io'', awsAccountID = ''1234''\<rparr>"

definition example_token :: oauth2_Token where
  "example_token = \<lparr>Token_AccessToken = ''ya29'', Token_Valid = True, Token_Type = ''Bearer''\<rparr>"

definition example_entry :: AuthorizationData where
  "example_entry = \<lparr>AuthorizationToken = Some ''QVdT'', ProxyEndpoint = Some ''https://ecr''\<rparr>"

definition example_controller :: controller where
  "example_controller =
     \<lparr>ecrClient = (\<lambda>_. Inr [example_entry]), gcrClient = (\<lambda>_. Inr (Inr example_token))\<rparr>"

definition example_world :: world where
  "example_world =
     \<lparr>namespaces = [''kube-system'', ''team-a''],
      secrets = Map.empty,
      serviceAccounts =
        [(''kube-system'', ''default'') \<mapsto> [],
         (''team-a'', ''default'') \<mapsto> [LocalObjectReference ''other-reg'']],
      faults = (\<lambda>_. None),
      calls = [],
      printed = []\<rparr>"

text \<open>Clients that fail, in the ways the claims speak of.\<close>

definition ecr_error_controller :: controller where
  "ecr_error_controller = example_controller\<lparr>ecrClient := (\<lambda>_. Inl ''denied'')\<rparr>"

definition no_entries_controller :: controller where
  "no_entries_controller = example_controller\<lparr>ecrClient := (\<lambda>_. Inr [])\<rparr>"

definition gcr_error_controller :: controller where
  "gcr_error_controller = example_controller\<lparr>gcrClient := (\<lambda>_. Inl ''denied'')\<rparr>"

definition token_error_controller :: controller where
  "token_error_controller = example_controller\<lparr>gcrClient := (\<lambda>_. Inr (Inl ''denied''))\<rparr>"

text \<open>An ECR client that returns three entries, the last with nil fields.\<close>

definition three_entries_controller :: controller where
  "three_entries_controller =
     example_controller\<lparr>ecrClient :=
       (\<lambda>_. Inr [example_entry,
                  \<lparr>AuthorizationToken = Some ''second'',
                   ProxyEndpoint = Some ''https://other''\<rparr>,
                  \<lparr>AuthorizationToken = None, ProxyEndpoint = None\<rparr>])\<rparr>"

text \<open>The first generator of a run with the example clients, and the secret it makes.\<close>

definition example_generator :: SecretGenerator where
  "example_generator = gcrGenerator example_flags example_controller"

definition example_secret :: Secret where
  "example_secret = generateSecretObj ''ya29'' ''https://gcr.io'' False ''gcr-secret''"

text \<open>
  Variants of the cluster: the default service account of \<^verbatim>\<open>team-a\<close> lists
  \<^verbatim>\<open>gcr-secret\<close> twice; the first call fails with a timeout, without and with a
  secret \<^verbatim>\<open>gcr-secret\<close> from an earlier run in \<^verbatim>\<open>team-a\<close>; there is no service
  account, before and after the namespaces were listed.
\<close>

definition duplicates_world :: world where
  "duplicates_world =
     example_world\<lparr>serviceAccounts :=
       [(''team-a'', ''default'') \<mapsto>
          [LocalObjectReference ''gcr-secret'', LocalObjectReference ''gcr-secret'']]\<rparr>"

definition timeout_world :: world where
  "timeout_world = example_world\<lparr>faults := (\<lambda>n. if n = 0 then Some ''timeout'' else None)\<rparr>"

definition timeout_stale_world :: world where
  "timeout_stale_world =
     timeout_world\<lparr>secrets :=
       [(''team-a'', ''gcr-secret'') \<mapsto>
          generateSecretObj ''stale'' ''https://gcr.io'' False ''gcr-secret'']\<rparr>"

definition no_accounts_world :: world where
  "no_accounts_world = example_world\<lparr>serviceAccounts := Map.empty\<rparr>"

definition no_accounts_listed_world :: world where
  "no_accounts_listed_world = no_accounts_world\<lparr>calls := [NamespacesList]\<rparr>"

section \<open>The two templates\<close>

lemma Sprintf_dockerCfgTemplate:
  \<open>Sprintf dockerCfgTemplate [endpoint, token] =
     ''{"'' @ endpoint @ ''":{"username":"oauth2accesstoken","password":"'' @ token
       @ ''","email":"none"}}''\<close>
  by (simp add: dockerCfgTemplate_def)

lemma Sprintf_dockerJSONTemplate:
  \<open>Sprintf dockerJSONTemplate [endpoint, token] =
     ''{"auths":{"'' @ endpoint @ ''":{"auth":"'' @ token @ ''","email":"none"}}}''\<close>
  by (simp add: dockerJSONTemplate_def)

section \<open>The image pull secrets of a service account\<close>

lemma scan_unchanged:
  "fst (scanImagePullSecrets n l) = l"
  by (induction l) (auto split: prod.splits)

lemma scan_found:
  "snd (scanImagePullSecrets n l) = (n \<in> RefName ` set l)"
  by (induction l) (auto split: prod.splits)

lemma updateImagePullSecrets_eq:
  "updateImagePullSecrets n l = (if n \<in> RefName ` set l then l else l @ [LocalObjectReference n])"
  using scan_unchanged [of n l] scan_found [of n l]
  by (auto simp: updateImagePullSecrets_def split: prod.splits)

lemma prefix_updateImagePullSecrets:
  "prefix l (updateImagePullSecrets n l)"
  by (simp add: updateImagePullSecrets_eq)

lemma updateImagePullSecrets_mem:
  "LocalObjectReference n \<in> set (updateImagePullSecrets n l)"
  by (cases "n \<in> RefName ` set l") (auto simp: updateImagePullSecrets_eq)

lemma updateImagePullSecrets_idem:
  "updateImagePullSecrets n (updateImagePullSecrets n l) = updateImagePullSecrets n l"
  by (auto simp: updateImagePullSecrets_eq)

lemma count_refs_pos:
  "(n \<in> RefName ` set l) = (0 < count_refs n l)"
  by (induction l) (auto simp: count_refs_def)

lemma count_refs_update:
  "count_refs n (updateImagePullSecrets n l) = max 1 (count_refs n l)"
  using count_refs_pos [of n l]
  by (auto simp: updateImagePullSecrets_eq) (auto simp: count_refs_def)

lemma count_refs_update_other:
  "m \<noteq> n \<Longrightarrow> count_refs m (updateImagePullSecrets n l) = count_refs m l"
  by (auto simp: updateImagePullSecrets_eq count_refs_def)

section \<open>The body of the namespace loop\<close>

text \<open>
  What each half of the body leaves alone, which calls it issues, and what it has stored
  when it succeeds.
\<close>

lemma process_secret_frame:
  assumes "process_secret g sec ns w = (r, w')"
  shows "serviceAccounts w' = serviceAccounts w \<and> namespaces w' = namespaces w
         \<and> faults w' = faults w \<and> printed w' = printed w
         \<and> (\<forall>k. k \<noteq> (ns, Name sec) \<longrightarrow> secrets w' k = secrets w k)
         \<and> (\<exists>new. calls w' = calls w @ new
               \<and> set new \<subseteq> {SecretsGet ns (SecretName g), SecretsCreate ns sec, SecretsUpdate ns sec})"
  using assms
  by (auto simp: process_secret_def Secrets_Get_def Secrets_Create_def Secrets_Update_def issue_def
      split: option.splits prod.splits sum.splits if_splits)

lemma process_secret_ok:
  assumes "process_secret g sec ns w = (Inr u, w')"
  shows "secrets w' = (secrets w)((ns, Name sec) \<mapsto> sec)"
  using assms
  by (auto simp: process_secret_def Secrets_Get_def Secrets_Create_def Secrets_Update_def issue_def
      split: option.splits prod.splits sum.splits if_splits)

lemma process_serviceAccount_frame:
  assumes "process_serviceAccount g ns w = (r, w')"
  shows "secrets w' = secrets w \<and> namespaces w' = namespaces w
         \<and> faults w' = faults w \<and> printed w' = printed w
         \<and> (\<forall>k. k \<noteq> (ns, ''default'') \<longrightarrow> serviceAccounts w' k = serviceAccounts w k)
         \<and> (\<exists>new. calls w' = calls w @ new
               \<and> (\<forall>k \<in> set new. k = ServiceAccountsGet ns ''default''
                     \<or> (\<exists>sa. k = ServiceAccountsUpdate ns sa \<and> Name sa = ''default''
                           \<and> LocalObjectReference (SecretName g) \<in> set (ImagePullSecrets sa))))"
  using assms
  by (auto simp: process_serviceAccount_def ServiceAccounts_Get_def ServiceAccounts_Update_def issue_def
      updateImagePullSecrets_mem
      split: option.splits prod.splits sum.splits if_splits)

lemma process_serviceAccount_ok:
  assumes "process_serviceAccount g ns w = (Inr u, w')"
  shows "\<exists>l. serviceAccounts w (ns, ''default'') = Some l
           \<and> serviceAccounts w' = (serviceAccounts w)((ns, ''default'') \<mapsto> updateImagePullSecrets (SecretName g) l)"
  using assms
  by (auto simp: process_serviceAccount_def ServiceAccounts_Get_def ServiceAccounts_Update_def issue_def
      split: option.splits prod.splits sum.splits if_splits)


lemma process_namespace_frame:
  assumes "process_namespace g sec ns w = (r, w')"
  shows "namespaces w' = namespaces w \<and> faults w' = faults w \<and> printed w' = printed w
         \<and> (\<forall>k. k \<noteq> (ns, Name sec) \<longrightarrow> secrets w' k = secrets w k)
         \<and> (\<forall>k. k \<noteq> (ns, ''default'') \<longrightarrow> serviceAccounts w' k = serviceAccounts w k)"
proof (cases "process_secret g sec ns w")
  case (Pair r1 w1)
  note f1 = process_secret_frame [OF Pair]
  show ?thesis
  proof (cases r1)
    case (Inl e)
    with Pair assms f1 show ?thesis by (simp add: process_namespace_def)
  next
    case (Inr u)
    with Pair assms have "process_serviceAccount g ns w1 = (r, w')"
      by (simp add: process_namespace_def)
    from process_serviceAccount_frame [OF this] f1 show ?thesis by simp
  qed
qed

lemma process_namespace_calls:
  assumes "process_namespace g sec ns w = (r, w')"
    and "generator_secret g = Some sec" and "ns \<noteq> ''kube-system''"
  shows "\<exists>new. calls w' = calls w @ new
           \<and> (\<forall>k \<in> set new. generator_call g k \<and> call_namespace k = Some ns)"
proof (cases "process_secret g sec ns w")
  case (Pair r1 w1)
  from process_secret_frame [OF Pair] obtain new1 where
    n1: "calls w1 = calls w @ new1"
      "set new1 \<subseteq> {SecretsGet ns (SecretName g), SecretsCreate ns sec, SecretsUpdate ns sec}"
    by blast
  from n1(2) assms(2,3) have g1: "\<forall>k \<in> set new1. generator_call g k \<and> call_namespace k = Some ns"
    by auto
  show ?thesis
  proof (cases r1)
    case (Inl e)
    with Pair assms(1) have "w' = w1" by (simp add: process_namespace_def)
    with n1(1) g1 show ?thesis by blast
  next
    case (Inr u)
    with Pair assms(1) have "process_serviceAccount g ns w1 = (r, w')"
      by (simp add: process_namespace_def)
    from process_serviceAccount_frame [OF this] obtain new2 where
      n2: "calls w' = calls w1 @ new2"
        "\<forall>k \<in> set new2. k = ServiceAccountsGet ns ''default''
                     \<or> (\<exists>sa. k = ServiceAccountsUpdate ns sa \<and> Name sa = ''default''
                           \<and> LocalObjectReference (SecretName g) \<in> set (ImagePullSecrets sa))"
      by blast
    from n2(2) assms(3) have g2: "\<forall>k \<in> set new2. generator_call g k \<and> call_namespace k = Some ns"
      by auto
    from n1(1) n2(1) have "calls w' = calls w @ (new1 @ new2)" by simp
    moreover from g1 g2 have "\<forall>k \<in> set (new1 @ new2). generator_call g k \<and> call_namespace k = Some ns"
      by auto
    ultimately show ?thesis by blast
  qed
qed

lemma process_namespace_ok:
  assumes "process_namespace g sec ns w = (Inr u, w')"
  shows "secrets w' = (secrets w)((ns, Name sec) \<mapsto> sec)
         \<and> (\<exists>l. serviceAccounts w (ns, ''default'') = Some l
               \<and> serviceAccounts w' =
                   (serviceAccounts w)((ns, ''default'') \<mapsto> updateImagePullSecrets (SecretName g) l))"
proof (cases "process_secret g sec ns w")
  case (Pair r1 w1)
  show ?thesis
  proof (cases r1)
    case (Inl e)
    with Pair assms show ?thesis by (simp add: process_namespace_def)
  next
    case (Inr u1)
    with Pair assms have sa: "process_serviceAccount g ns w1 = (Inr u, w')"
      by (simp add: process_namespace_def)
    from Pair Inr have "process_secret g sec ns w = (Inr u1, w1)" by simp
    from process_secret_ok [OF this] process_secret_frame [OF this]
      process_serviceAccount_ok [OF sa] process_serviceAccount_frame [OF sa]
    show ?thesis by auto
  qed
qed


section \<open>The loop over the namespaces\<close>

lemma process_namespaces_frame:
  "process_namespaces g sec nss w = (r, w') \<Longrightarrow>
     namespaces w' = namespaces w \<and> faults w' = faults w \<and> printed w' = printed w
     \<and> (\<forall>ns n. ns \<notin> set nss \<or> ns = ''kube-system'' \<or> n \<noteq> Name sec
           \<longrightarrow> secrets w' (ns, n) = secrets w (ns, n))
     \<and> (\<forall>ns n. ns \<notin> set nss \<or> ns = ''kube-system'' \<or> n \<noteq> ''default''
           \<longrightarrow> serviceAccounts w' (ns, n) = serviceAccounts w (ns, n))"
proof (induction nss arbitrary: w)
  case Nil
  then show ?case by simp
next
  case (Cons a nss)
  show ?case
  proof (cases "a = ''kube-system''")
    case True
    with Cons.prems have "process_namespaces g sec nss w = (r, w')" by simp
    from Cons.IH [OF this] True show ?thesis by auto
  next
    case False
    obtain r1 w1 where p: "process_namespace g sec a w = (r1, w1)"
      by (cases "process_namespace g sec a w")
    note f1 = process_namespace_frame [OF p]
    show ?thesis
    proof (cases r1)
      case (Inl e)
      with p False Cons.prems have "w' = w1" by simp
      with f1 False show ?thesis by auto
    next
      case (Inr u)
      with p False Cons.prems have "process_namespaces g sec nss w1 = (r, w')" by simp
      from Cons.IH [OF this] f1 False show ?thesis by auto
    qed
  qed
qed

lemma process_namespaces_calls:
  "process_namespaces g sec nss w = (r, w') \<Longrightarrow> generator_secret g = Some sec \<Longrightarrow>
     \<exists>new. calls w' = calls w @ new
       \<and> (\<forall>k \<in> set new. generator_call g k \<and> call_namespace k \<noteq> None)"
proof (induction nss arbitrary: w)
  case Nil
  then show ?case by simp
next
  case (Cons a nss)
  show ?case
  proof (cases "a = ''kube-system''")
    case True
    with Cons.prems have "process_namespaces g sec nss w = (r, w')" by simp
    from Cons.IH [OF this Cons.prems(2)] show ?thesis .
  next
    case False
    obtain r1 w1 where p: "process_namespace g sec a w = (r1, w1)"
      by (cases "process_namespace g sec a w")
    from process_namespace_calls [OF p Cons.prems(2) False] obtain new1 where
      n1: "calls w1 = calls w @ new1"
        "\<forall>k \<in> set new1. generator_call g k \<and> call_namespace k = Some a"
      by blast
    show ?thesis
    proof (cases r1)
      case (Inl e)
      with p False Cons.prems have "w' = w1" by simp
      with n1 show ?thesis by auto
    next
      case (Inr u)
      with p False Cons.prems have "process_namespaces g sec nss w1 = (r, w')" by simp
      from Cons.IH [OF this Cons.prems(2)] obtain new2 where
        n2: "calls w' = calls w1 @ new2"
          "\<forall>k \<in> set new2. generator_call g k \<and> call_namespace k \<noteq> None"
        by blast
      from n1(1) n2(1) have "calls w' = calls w @ (new1 @ new2)" by simp
      moreover from n1(2) n2(2)
      have "\<forall>k \<in> set (new1 @ new2). generator_call g k \<and> call_namespace k \<noteq> None"
        by auto
      ultimately show ?thesis by blast
    qed
  qed
qed

lemma process_namespaces_ok:
  "process_namespaces g sec nss w = (Inr u, w') \<Longrightarrow> ns \<in> set nss \<Longrightarrow> ns \<noteq> ''kube-system'' \<Longrightarrow>
     secrets w' (ns, Name sec) = Some sec
     \<and> (\<exists>l. serviceAccounts w (ns, ''default'') = Some l
           \<and> serviceAccounts w' (ns, ''default'') = Some (updateImagePullSecrets (SecretName g) l))"
proof (induction nss arbitrary: w)
  case Nil
  then show ?case by simp
next
  case (Cons a nss)
  show ?case
  proof (cases "a = ''kube-system''")
    case True
    with Cons.prems have "process_namespaces g sec nss w = (Inr u, w')" "ns \<in> set nss" by auto
    from Cons.IH [OF this Cons.prems(3)] show ?thesis .
  next
    case False
    obtain r1 w1 where p: "process_namespace g sec a w = (r1, w1)"
      by (cases "process_namespace g sec a w")
    show ?thesis
    proof (cases r1)
      case (Inl e)
      with p False Cons.prems show ?thesis by simp
    next
      case (Inr u1)
      with p have p1: "process_namespace g sec a w = (Inr u1, w1)" by simp
      from Inr p False Cons.prems have rest: "process_namespaces g sec nss w1 = (Inr u, w')"
        by simp
      note ok1 = process_namespace_ok [OF p1]
      note fr = process_namespaces_frame [OF rest]
      show ?thesis
      proof (cases "ns \<in> set nss")
        case True
        from Cons.IH [OF rest True Cons.prems(3)] ok1 show ?thesis
          by (auto simp: updateImagePullSecrets_idem split: if_splits)
      next
        case False
        with Cons.prems(2) have "ns = a" by simp
        with False fr ok1 show ?thesis by auto
      qed
    qed
  qed
qed


lemma process_namespaces_append:
  "process_namespaces g sec (pre @ rest) w =
     (case process_namespaces g sec pre w of
        (Inl err, w') \<Rightarrow> (Inl err, w')
      | (Inr _, w') \<Rightarrow> process_namespaces g sec rest w')"
  by (induction pre arbitrary: w) (auto split: prod.splits sum.splits)

section \<open>The pass of one generator and the run\<close>

lemma Name_generateSecretObj [simp]:
  "Name (generateSecretObj token endpoint isJSONCfg secretName) = secretName"
  by (simp add: generateSecretObj_def)

lemma Namespaces_List_effect:
  "Namespaces_List w = (r, w') \<Longrightarrow>
     w' = w\<lparr>calls := calls w @ [NamespacesList]\<rparr> \<and> (\<forall>nss. r = Inr nss \<longrightarrow> nss = namespaces w)"
  by (auto simp: Namespaces_List_def issue_def split: option.splits)

lemma process_generator_fetch_fails:
  "TokenGenFxn g () = (ls, Inl e) \<Longrightarrow> process_generator g w = (Inl e, write_out ls w)"
  by (simp add: process_generator_def)

lemma process_generator_calls:
  assumes "process_generator g w = (r, w')"
  shows "\<exists>new. calls w' = calls w @ new \<and> (\<forall>k \<in> set new. generator_call g k)"
proof (cases "TokenGenFxn g ()")
  case (Pair ls t)
  show ?thesis
  proof (cases t)
    case (Inl e)
    with Pair assms have "w' = write_out ls w" by (simp add: process_generator_def)
    then have "calls w' = calls w @ []" by (simp add: write_out_def)
    then show ?thesis by fastforce
  next
    case (Inr newToken)
    define sec where "sec = generateSecretObj (AccessToken newToken) (Endpoint newToken)
                             (IsJSONCfg g) (SecretName g)"
    from Pair Inr have gs: "generator_secret g = Some sec"
      by (simp add: generator_secret_def sec_def)
    obtain r1 w1 where nl: "Namespaces_List (write_out ls w) = (r1, w1)"
      by (cases "Namespaces_List (write_out ls w)")
    from Namespaces_List_effect [OF nl] have c1: "calls w1 = calls w @ [NamespacesList]"
      by (simp add: write_out_def)
    show ?thesis
    proof (cases r1)
      case (Inl e)
      with Pair Inr nl assms have "w' = w1" by (simp add: process_generator_def)
      with c1 show ?thesis by fastforce
    next
      case (Inr nss)
      obtain r2 w2 where pn: "process_namespaces g sec nss w1 = (r2, w2)"
        by (cases "process_namespaces g sec nss w1")
      from process_namespaces_calls [OF pn gs] obtain new2 where
        n2: "calls w2 = calls w1 @ new2" "\<forall>k \<in> set new2. generator_call g k \<and> call_namespace k \<noteq> None"
        by blast
      from Pair \<open>t = Inr newToken\<close> nl Inr pn assms have "calls w' = calls w2"
        by (auto simp: process_generator_def sec_def write_out_def split: sum.splits)
      with c1 n2(1) have "calls w' = calls w @ (NamespacesList # new2)" by simp
      moreover from n2(2) have "\<forall>k \<in> set (NamespacesList # new2). generator_call g k" by simp
      ultimately show ?thesis by blast
    qed
  qed
qed

lemma process_generator_ok:
  assumes "process_generator g w = (Inr u, w')"
  shows "\<exists>newToken. snd (TokenGenFxn g ()) = Inr newToken
           \<and> namespaces w' = namespaces w \<and> faults w' = faults w
           \<and> (\<forall>ns n. n \<noteq> SecretName g \<longrightarrow> secrets w' (ns, n) = secrets w (ns, n))
           \<and> (\<forall>ns n. ns \<notin> set (namespaces w) \<or> ns = ''kube-system'' \<or> n \<noteq> ''default''
                 \<longrightarrow> serviceAccounts w' (ns, n) = serviceAccounts w (ns, n))
           \<and> (\<forall>ns. ns \<in> set (namespaces w) \<and> ns \<noteq> ''kube-system'' \<longrightarrow>
                 secrets w' (ns, SecretName g) =
                   Some (generateSecretObj (AccessToken newToken) (Endpoint newToken)
                           (IsJSONCfg g) (SecretName g))
                 \<and> (\<exists>l. serviceAccounts w (ns, ''default'') = Some l
                       \<and> serviceAccounts w' (ns, ''default'') =
                           Some (updateImagePullSecrets (SecretName g) l)))"
proof (cases "TokenGenFxn g ()")
  case (Pair ls t)
  show ?thesis
  proof (cases t)
    case (Inl e)
    with Pair assms show ?thesis by (simp add: process_generator_def)
  next
    case (Inr newToken)
    define sec where "sec = generateSecretObj (AccessToken newToken) (Endpoint newToken)
                             (IsJSONCfg g) (SecretName g)"
    have nm: "Name sec = SecretName g" by (simp add: sec_def)
    obtain r1 w1 where nl: "Namespaces_List (write_out ls w) = (r1, w1)"
      by (cases "Namespaces_List (write_out ls w)")
    note e1 = Namespaces_List_effect [OF nl]
    show ?thesis
    proof (cases r1)
      case (Inl e)
      with Pair \<open>t = Inr newToken\<close> nl assms show ?thesis by (simp add: process_generator_def)
    next
      case (Inr nss)
      with e1 have nss: "nss = namespaces w" by (simp add: write_out_def)
      obtain r2 w2 where pn: "process_namespaces g sec nss w1 = (r2, w2)"
        by (cases "process_namespaces g sec nss w1")
      from Pair \<open>t = Inr newToken\<close> nl Inr pn assms
      have r2: "r2 = Inr ()" and w': "w' = write_out
                          [Log (''Finished processing secret for: '' @ SecretName g)] w2"
        by (auto simp: process_generator_def sec_def split: sum.splits)
      from pn r2 have pn': "process_namespaces g sec nss w1 = (Inr (), w2)" by simp
      note fr = process_namespaces_frame [OF pn']
      have w1: "secrets w1 = secrets w" "serviceAccounts w1 = serviceAccounts w"
        "namespaces w1 = namespaces w" "faults w1 = faults w"
        using e1 by (simp_all add: write_out_def)
      have w2: "secrets w' = secrets w2" "serviceAccounts w' = serviceAccounts w2"
        "namespaces w' = namespaces w2" "faults w' = faults w2"
        using w' by (simp_all add: write_out_def)
      have "\<forall>ns. ns \<in> set (namespaces w) \<and> ns \<noteq> ''kube-system'' \<longrightarrow>
                 secrets w' (ns, SecretName g) = Some sec
                 \<and> (\<exists>l. serviceAccounts w (ns, ''default'') = Some l
                       \<and> serviceAccounts w' (ns, ''default'') =
                           Some (updateImagePullSecrets (SecretName g) l))"
        using process_namespaces_ok [OF pn'] nss nm w1 w2 by auto
      moreover have "\<forall>ns n. n \<noteq> SecretName g \<longrightarrow> secrets w' (ns, n) = secrets w (ns, n)"
        using fr nm w1 w2 by auto
      moreover have "\<forall>ns n. ns \<notin> set (namespaces w) \<or> ns = ''kube-system'' \<or> n \<noteq> ''default''
                 \<longrightarrow> serviceAccounts w' (ns, n) = serviceAccounts w (ns, n)"
        using fr nss w1 w2 by auto
      moreover have "namespaces w' = namespaces w" "faults w' = faults w"
        using fr w1 w2 by auto
      ultimately show ?thesis using Pair \<open>t = Inr newToken\<close> by (simp add: sec_def)
    qed
  qed
qed

lemma process_generator_frame:
  assumes "process_generator g w = (r, w')"
  shows "namespaces w' = namespaces w \<and> faults w' = faults w
         \<and> (\<forall>ns n. n \<noteq> SecretName g \<longrightarrow> secrets w' (ns, n) = secrets w (ns, n))
         \<and> (\<forall>ns n. ns \<notin> set (namespaces w) \<or> ns = ''kube-system'' \<or> n \<noteq> ''default''
               \<longrightarrow> serviceAccounts w' (ns, n) = serviceAccounts w (ns, n))"
proof (cases "TokenGenFxn g ()")
  case (Pair ls t)
  show ?thesis
  proof (cases t)
    case (Inl e)
    with Pair assms show ?thesis by (auto simp: process_generator_def write_out_def)
  next
    case (Inr newToken)
    define sec where "sec = generateSecretObj (AccessToken newToken) (Endpoint newToken)
                             (IsJSONCfg g) (SecretName g)"
    have nm: "Name sec = SecretName g" by (simp add: sec_def)
    obtain r1 w1 where nl: "Namespaces_List (write_out ls w) = (r1, w1)"
      by (cases "Namespaces_List (write_out ls w)")
    note e1 = Namespaces_List_effect [OF nl]
    have w1: "secrets w1 = secrets w" "serviceAccounts w1 = serviceAccounts w"
      "namespaces w1 = namespaces w" "faults w1 = faults w"
      using e1 by (simp_all add: write_out_def)
    show ?thesis
    proof (cases r1)
      case (Inl e)
      with Pair \<open>t = Inr newToken\<close> nl assms have "w' = w1" by (simp add: process_generator_def)
      with w1 show ?thesis by simp
    next
      case (Inr nss)
      with e1 have nss: "nss = namespaces w" by (simp add: write_out_def)
      obtain r2 w2 where pn: "process_namespaces g sec nss w1 = (r2, w2)"
        by (cases "process_namespaces g sec nss w1")
      from Pair \<open>t = Inr newToken\<close> nl Inr pn assms
      have w2: "secrets w' = secrets w2" "serviceAccounts w' = serviceAccounts w2"
        "namespaces w' = namespaces w2" "faults w' = faults w2"
        by (auto simp: process_generator_def sec_def write_out_def split: sum.splits)
      from process_namespaces_frame [OF pn] nm nss w1 w2 show ?thesis by auto
    qed
  qed
qed

lemma generator_call_not_kube_system:
  "generator_call g k \<Longrightarrow> call_namespace k \<noteq> Some ''kube-system''"
  by (cases k) auto

lemma process_unfold:
  "process fl c w =
     (case process_generator (gcrGenerator fl c) (write_out [Log ''Processing Credentials...''] w) of
        (Inl err, w1) \<Rightarrow> (Inl err, w1)
      | (Inr _, w1) \<Rightarrow>
          (case process_generator (ecrGenerator fl c) w1 of
             (Inl err, w2) \<Rightarrow> (Inl err, w2)
           | (Inr _, w2) \<Rightarrow> (Inr (), w2)))"
  by (simp add: process_def secretGenerators_def split: prod.splits sum.splits)

lemma process_calls:
  assumes "process fl c w = (r, w')"
  shows "\<exists>new. calls w' = calls w @ new
           \<and> (\<forall>k \<in> set new. generator_call (gcrGenerator fl c) k
                               \<or> generator_call (ecrGenerator fl c) k)"
proof -
  obtain r1 w1 where g1: "process_generator (gcrGenerator fl c)
                             (write_out [Log ''Processing Credentials...''] w) = (r1, w1)"
    by (cases "process_generator (gcrGenerator fl c)
                 (write_out [Log ''Processing Credentials...''] w)")
  from process_generator_calls [OF g1] obtain new1 where
    n1: "calls w1 = calls w @ new1" "\<forall>k \<in> set new1. generator_call (gcrGenerator fl c) k"
    by (auto simp: write_out_def)
  show ?thesis
  proof (cases r1)
    case (Inl e)
    with g1 assms have "w' = w1" by (simp add: process_unfold)
    with n1 show ?thesis by auto
  next
    case (Inr u)
    obtain r2 w2 where g2: "process_generator (ecrGenerator fl c) w1 = (r2, w2)"
      by (cases "process_generator (ecrGenerator fl c) w1")
    from process_generator_calls [OF g2] obtain new2 where
      n2: "calls w2 = calls w1 @ new2" "\<forall>k \<in> set new2. generator_call (ecrGenerator fl c) k"
      by blast
    from g1 Inr g2 assms have "w' = w2" by (auto simp: process_unfold split: sum.splits)
    with n1(1) n2(1) have "calls w' = calls w @ (new1 @ new2)" by simp
    moreover from n1(2) n2(2) have "\<forall>k \<in> set (new1 @ new2).
        generator_call (gcrGenerator fl c) k \<or> generator_call (ecrGenerator fl c) k"
      by auto
    ultimately show ?thesis by blast
  qed
qed

lemma process_gcr_fetch_fails:
  assumes "snd (getGCRAuthorizationKey fl c) = Inl e"
  shows "process fl c w =
           (Inl e, write_out (Log ''Processing Credentials...'' # fst (getGCRAuthorizationKey fl c)) w)"
proof -
  have tg: "TokenGenFxn (gcrGenerator fl c) () = (fst (getGCRAuthorizationKey fl c), Inl e)"
    using assms by (cases "getGCRAuthorizationKey fl c") (simp add: gcrGenerator_def)
  show ?thesis
    by (simp add: process_unfold process_generator_fetch_fails [OF tg] write_out_def)
qed

lemma process_success:
  assumes "process fl c w = (Inr u, w')"
  shows "\<exists>w1. process_generator (gcrGenerator fl c)
                  (write_out [Log ''Processing Credentials...''] w) = (Inr (), w1)
              \<and> process_generator (ecrGenerator fl c) w1 = (Inr (), w')"
  using assms by (auto simp: process_unfold split: prod.splits sum.splits)

lemma process_serviceAccount_cases:
  assumes "process_serviceAccount g ns w = (r, w')"
  shows "serviceAccounts w' = serviceAccounts w
         \<or> (\<exists>l. serviceAccounts w (ns, ''default'') = Some l
               \<and> serviceAccounts w' =
                   (serviceAccounts w)((ns, ''default'') \<mapsto> updateImagePullSecrets (SecretName g) l))"
  using assms
  by (auto simp: process_serviceAccount_def ServiceAccounts_Get_def ServiceAccounts_Update_def
      issue_def split: option.splits prod.splits sum.splits if_splits)

lemma process_namespace_cases:
  assumes "process_namespace g sec ns w = (r, w')"
  shows "serviceAccounts w' = serviceAccounts w
         \<or> (\<exists>l. serviceAccounts w (ns, ''default'') = Some l
               \<and> serviceAccounts w' =
                   (serviceAccounts w)((ns, ''default'') \<mapsto> updateImagePullSecrets (SecretName g) l))"
proof (cases "process_secret g sec ns w")
  case (Pair r1 w1)
  note f1 = process_secret_frame [OF Pair]
  show ?thesis
  proof (cases r1)
    case (Inl e)
    with Pair assms f1 show ?thesis by (simp add: process_namespace_def)
  next
    case (Inr u)
    with Pair assms have "process_serviceAccount g ns w1 = (r, w')"
      by (simp add: process_namespace_def)
    from process_serviceAccount_cases [OF this] f1 show ?thesis by simp
  qed
qed

lemma process_namespaces_cases:
  "process_namespaces g sec nss w = (r, w') \<Longrightarrow>
     serviceAccounts w' k = serviceAccounts w k
     \<or> (\<exists>ns l. k = (ns, ''default'') \<and> ns \<in> set nss \<and> ns \<noteq> ''kube-system''
           \<and> serviceAccounts w k = Some l
           \<and> serviceAccounts w' k = Some (updateImagePullSecrets (SecretName g) l))"
proof (induction nss arbitrary: w)
  case Nil
  then show ?case by simp
next
  case (Cons a nss)
  show ?case
  proof (cases "a = ''kube-system''")
    case True
    with Cons.prems have "process_namespaces g sec nss w = (r, w')" by simp
    from Cons.IH [OF this] show ?thesis by auto
  next
    case False
    obtain r1 w1 where p: "process_namespace g sec a w = (r1, w1)"
      by (cases "process_namespace g sec a w")
    note c1 = process_namespace_cases [OF p]
    show ?thesis
    proof (cases r1)
      case (Inl e)
      with p False Cons.prems have "w' = w1" by simp
      with c1 False show ?thesis by (auto split: if_splits)
    next
      case (Inr u)
      with p False Cons.prems have "process_namespaces g sec nss w1 = (r, w')" by simp
      from Cons.IH [OF this] c1 False show ?thesis
        by (auto simp: updateImagePullSecrets_idem split: if_splits)
    qed
  qed
qed

lemma process_generator_cases:
  assumes "process_generator g w = (r, w')"
  shows "serviceAccounts w' k = serviceAccounts w k
     \<or> (\<exists>ns l. k = (ns, ''default'') \<and> ns \<in> set (namespaces w) \<and> ns \<noteq> ''kube-system''
           \<and> serviceAccounts w k = Some l
           \<and> serviceAccounts w' k = Some (updateImagePullSecrets (SecretName g) l))"
proof (cases "TokenGenFxn g ()")
  case (Pair ls t)
  show ?thesis
  proof (cases t)
    case (Inl e)
    with Pair assms show ?thesis by (auto simp: process_generator_def write_out_def)
  next
    case (Inr newToken)
    define sec where "sec = generateSecretObj (AccessToken newToken) (Endpoint newToken)
                             (IsJSONCfg g) (SecretName g)"
    obtain r1 w1 where nl: "Namespaces_List (write_out ls w) = (r1, w1)"
      by (cases "Namespaces_List (write_out ls w)")
    note e1 = Namespaces_List_effect [OF nl]
    have w1: "serviceAccounts w1 = serviceAccounts w"
      using e1 by (simp add: write_out_def)
    show ?thesis
    proof (cases r1)
      case (Inl e)
      with Pair \<open>t = Inr newToken\<close> nl assms have "w' = w1" by (simp add: process_generator_def)
      with w1 show ?thesis by simp
    next
      case (Inr nss)
      with e1 have nss: "nss = namespaces w" by (simp add: write_out_def)
      obtain r2 w2 where pn: "process_namespaces g sec nss w1 = (r2, w2)"
        by (cases "process_namespaces g sec nss w1")
      from Pair \<open>t = Inr newToken\<close> nl Inr pn assms
      have w2: "serviceAccounts w' = serviceAccounts w2"
        by (auto simp: process_generator_def sec_def write_out_def split: sum.splits)
      from process_namespaces_cases [OF pn, of k] nss w1 w2 show ?thesis by auto
    qed
  qed
qed

lemma process_generator_calls_ok:
  assumes "process_generator g w = (Inr u, w')"
  shows "\<exists>new. calls w' = calls w @ NamespacesList # new
           \<and> (\<forall>k \<in> set new. generator_call g k \<and> call_namespace k \<noteq> None)"
proof (cases "TokenGenFxn g ()")
  case (Pair ls t)
  show ?thesis
  proof (cases t)
    case (Inl e)
    with Pair assms show ?thesis by (simp add: process_generator_def)
  next
    case (Inr newToken)
    define sec where "sec = generateSecretObj (AccessToken newToken) (Endpoint newToken)
                             (IsJSONCfg g) (SecretName g)"
    from Pair Inr have gs: "generator_secret g = Some sec"
      by (simp add: generator_secret_def sec_def)
    obtain r1 w1 where nl: "Namespaces_List (write_out ls w) = (r1, w1)"
      by (cases "Namespaces_List (write_out ls w)")
    from Namespaces_List_effect [OF nl] have c1: "calls w1 = calls w @ [NamespacesList]"
      by (simp add: write_out_def)
    show ?thesis
    proof (cases r1)
      case (Inl e)
      with Pair \<open>t = Inr newToken\<close> nl assms show ?thesis by (simp add: process_generator_def)
    next
      case (Inr nss)
      obtain r2 w2 where pn: "process_namespaces g sec nss w1 = (r2, w2)"
        by (cases "process_namespaces g sec nss w1")
      from process_namespaces_calls [OF pn gs] obtain new2 where
        n2: "calls w2 = calls w1 @ new2"
          "\<forall>k \<in> set new2. generator_call g k \<and> call_namespace k \<noteq> None"
        by blast
      from Pair \<open>t = Inr newToken\<close> nl Inr pn assms have "calls w' = calls w2"
        by (auto simp: process_generator_def sec_def write_out_def split: sum.splits)
      with c1 n2 show ?thesis by simp
    qed
  qed
qed

lemma process_generator_printed_ok:
  assumes "process_generator g w = (Inr u, w')"
  shows "printed w' = printed w @ fst (TokenGenFxn g ())
           @ [Log (''Finished processing secret for: '' @ SecretName g)]"
proof (cases "TokenGenFxn g ()")
  case (Pair ls t)
  show ?thesis
  proof (cases t)
    case (Inl e)
    with Pair assms show ?thesis by (simp add: process_generator_def)
  next
    case (Inr newToken)
    define sec where "sec = generateSecretObj (AccessToken newToken) (Endpoint newToken)
                             (IsJSONCfg g) (SecretName g)"
    obtain r1 w1 where nl: "Namespaces_List (write_out ls w) = (r1, w1)"
      by (cases "Namespaces_List (write_out ls w)")
    from Namespaces_List_effect [OF nl] have c1: "printed w1 = printed w @ ls"
      by (simp add: write_out_def)
    show ?thesis
    proof (cases r1)
      case (Inl e)
      with Pair \<open>t = Inr newToken\<close> nl assms show ?thesis by (simp add: process_generator_def)
    next
      case (Inr nss)
      obtain r2 w2 where pn: "process_namespaces g sec nss w1 = (r2, w2)"
        by (cases "process_namespaces g sec nss w1")
      from process_namespaces_frame [OF pn] have "printed w2 = printed w1" by simp
      moreover from Pair \<open>t = Inr newToken\<close> nl Inr pn assms
      have "printed w' = printed w2 @ [Log (''Finished processing secret for: '' @ SecretName g)]"
        by (auto simp: process_generator_def sec_def write_out_def split: sum.splits)
      ultimately show ?thesis using c1 Pair by simp
    qed
  qed
qed

lemma process_ecr_fetch_fails_exact:
  assumes "getECRAuthorizationKey fl c = (ls, Inl e)"
    and "process_generator (gcrGenerator fl c)
           (write_out [Log ''Processing Credentials...''] w) = (r1, w1)"
  shows "process fl c w =
           (case r1 of Inl e1 \<Rightarrow> (Inl e1, w1) | Inr _ \<Rightarrow> (Inl e, write_out ls w1))"
proof -
  have tg: "TokenGenFxn (ecrGenerator fl c) () = (ls, Inl e)"
    using assms(1) by (simp add: ecrGenerator_def)
  show ?thesis
    using assms(2) process_generator_fetch_fails [OF tg, of w1]
    by (simp add: process_unfold split: sum.splits)
qed

section \<open>Unfolding a run on a concrete input\<close>

lemmas run_defs =
  process_unfold gcrGenerator_def ecrGenerator_def process_generator_def write_out_def
  getGCRAuthorizationKey_def getECRAuthorizationKey_def Namespaces_List_def issue_def
  process_namespace_def process_secret_def Secrets_Get_def Secrets_Create_def
  Secrets_Update_def process_serviceAccount_def ServiceAccounts_Get_def
  ServiceAccounts_Update_def updateImagePullSecrets_def Let_def

lemmas example_defs =
  example_flags_def example_token_def example_entry_def example_controller_def
  example_world_def ecr_error_controller_def no_entries_controller_def
  gcr_error_controller_def token_error_controller_def duplicates_world_def
  timeout_world_def timeout_stale_world_def no_accounts_world_def
  no_accounts_listed_world_def
  three_entries_controller_def example_generator_def example_secret_def

section \<open>The claims\<close>

subsection \<open>C1: a failing token provider\<close>

text \<open>
  Claim C1 as stated fails. In the example cluster the GCR provider answers and the ECR
  provider returns an error: the run reports that error, and by then the pass of the
  first generator has created the secret \<^verbatim>\<open>gcr-secret\<close> in \<^verbatim>\<open>team-a\<close> and added it
  to the default service account.
\<close>

theorem process_provider_failure_counterexample:
  "snd (getECRAuthorizationKey example_flags ecr_error_controller)
     = Inl (ProviderError ''denied'')
   \<and> fst (process example_flags ecr_error_controller example_world)
     = Inl (ProviderError ''denied'')
   \<and> secrets example_world (''team-a'', ''gcr-secret'') = None
   \<and> secrets (snd (process example_flags ecr_error_controller example_world))
        (''team-a'', ''gcr-secret'')
     = Some (generateSecretObj ''ya29'' ''https://gcr.io'' False ''gcr-secret'')
   \<and> serviceAccounts example_world (''team-a'', ''default'')
     = Some [LocalObjectReference ''other-reg'']
   \<and> serviceAccounts (snd (process example_flags ecr_error_controller example_world))
        (''team-a'', ''default'')
     = Some [LocalObjectReference ''other-reg'', LocalObjectReference ''gcr-secret'']"
  by (simp add: run_defs example_defs)

text \<open>
  Claim C1, amended. When the fetch of the first generator (GCR) fails, the run returns
  that failure having issued no store call: the world is the one from before with the
  lines written, and secrets and service accounts are as before. The fetch of the second
  generator (ECR) is reached only when the pass of the first generator has succeeded;
  when the pass fails, the run returns the failure of the pass. When the fetch of the
  second generator then fails, the run returns that failure and the world is the one the
  first pass left, with the lines the fetch wrote: the calls are those of the first pass,
  beginning with the list of the namespaces; every listed namespace other than
  \<^verbatim>\<open>kube-system\<close> holds the secret materialized from the first generator's token,
  and its default service account lists what it listed before with that secret's name
  appended if it was absent; no secret under another name and no other service account
  is changed.
\<close>

theorem process_provider_failure:
  assumes "process fl c w = (r, w')"
  shows
    "(getGCRAuthorizationKey fl c = (lsB, Inl eB) \<longrightarrow>
        r = Inl eB \<and> w' = write_out (Log ''Processing Credentials...'' # lsB) w
        \<and> calls w' = calls w \<and> secrets w' = secrets w
        \<and> serviceAccounts w' = serviceAccounts w)
     \<and> (getECRAuthorizationKey fl c = (lsA, Inl eA)
          \<and> process_generator (gcrGenerator fl c)
                (write_out [Log ''Processing Credentials...''] w) = (Inl e1, w1) \<longrightarrow>
        r = Inl e1 \<and> w' = w1)
     \<and> (getECRAuthorizationKey fl c = (lsA, Inl eA)
          \<and> process_generator (gcrGenerator fl c)
                (write_out [Log ''Processing Credentials...''] w) = (Inr u, w1) \<longrightarrow>
        r = Inl eA \<and> w' = write_out lsA w1
        \<and> calls w' = calls w1 \<and> secrets w' = secrets w1
        \<and> serviceAccounts w' = serviceAccounts w1
        \<and> (\<exists>new. calls w' = calls w @ NamespacesList # new
              \<and> (\<forall>k \<in> set new. generator_call (gcrGenerator fl c) k))
        \<and> (\<exists>tokenB. snd (getGCRAuthorizationKey fl c) = Inr tokenB
              \<and> (\<forall>ns. ns \<in> set (namespaces w) \<and> ns \<noteq> ''kube-system'' \<longrightarrow>
                    secrets w' (ns, argGCRSecretName fl) =
                      Some (generateSecretObj (AccessToken tokenB) (Endpoint tokenB) False
                              (argGCRSecretName fl))
                    \<and> (\<exists>l. serviceAccounts w (ns, ''default'') = Some l
                          \<and> serviceAccounts w' (ns, ''default'') =
                              Some (updateImagePullSecrets (argGCRSecretName fl) l))))
        \<and> (\<forall>ns n. n \<noteq> argGCRSecretName fl \<longrightarrow> secrets w' (ns, n) = secrets w (ns, n))
        \<and> (\<forall>ns n. ns \<notin> set (namespaces w) \<or> ns = ''kube-system'' \<or> n \<noteq> ''default''
              \<longrightarrow> serviceAccounts w' (ns, n) = serviceAccounts w (ns, n)))"
proof -
  let ?start = "write_out [Log ''Processing Credentials...''] w"
  have 1: "r = Inl eB \<and> w' = write_out (Log ''Processing Credentials...'' # lsB) w
        \<and> calls w' = calls w \<and> secrets w' = secrets w
        \<and> serviceAccounts w' = serviceAccounts w"
    if g: "getGCRAuthorizationKey fl c = (lsB, Inl eB)"
  proof -
    from g have "snd (getGCRAuthorizationKey fl c) = Inl eB"
      "fst (getGCRAuthorizationKey fl c) = lsB" by simp_all
    with process_gcr_fetch_fails [of fl c eB w] assms show ?thesis
      by (auto simp: write_out_def)
  qed
  have 2: "r = Inl e1 \<and> w' = w1"
    if "getECRAuthorizationKey fl c = (lsA, Inl eA)"
      and "process_generator (gcrGenerator fl c) ?start = (Inl e1, w1)"
    using process_ecr_fetch_fails_exact [OF that] assms by simp
  have 3: "r = Inl eA \<and> w' = write_out lsA w1
        \<and> calls w' = calls w1 \<and> secrets w' = secrets w1
        \<and> serviceAccounts w' = serviceAccounts w1
        \<and> (\<exists>new. calls w' = calls w @ NamespacesList # new
              \<and> (\<forall>k \<in> set new. generator_call (gcrGenerator fl c) k))
        \<and> (\<exists>tokenB. snd (getGCRAuthorizationKey fl c) = Inr tokenB
              \<and> (\<forall>ns. ns \<in> set (namespaces w) \<and> ns \<noteq> ''kube-system'' \<longrightarrow>
                    secrets w' (ns, argGCRSecretName fl) =
                      Some (generateSecretObj (AccessToken tokenB) (Endpoint tokenB) False
                              (argGCRSecretName fl))
                    \<and> (\<exists>l. serviceAccounts w (ns, ''default'') = Some l
                          \<and> serviceAccounts w' (ns, ''default'') =
                              Some (updateImagePullSecrets (argGCRSecretName fl) l))))
        \<and> (\<forall>ns n. n \<noteq> argGCRSecretName fl \<longrightarrow> secrets w' (ns, n) = secrets w (ns, n))
        \<and> (\<forall>ns n. ns \<notin> set (namespaces w) \<or> ns = ''kube-system'' \<or> n \<noteq> ''default''
              \<longrightarrow> serviceAccounts w' (ns, n) = serviceAccounts w (ns, n))"
    if a: "getECRAuthorizationKey fl c = (lsA, Inl eA)"
      and b: "process_generator (gcrGenerator fl c) ?start = (Inr u, w1)"
  proof -
    from process_ecr_fetch_fails_exact [OF a b] assms
    have res: "r = Inl eA" "w' = write_out lsA w1" by simp_all
    then have same: "calls w' = calls w1" "secrets w' = secrets w1"
      "serviceAccounts w' = serviceAccounts w1"
      by (simp_all add: write_out_def)
    have start: "calls ?start = calls w" "secrets ?start = secrets w"
      "serviceAccounts ?start = serviceAccounts w" "namespaces ?start = namespaces w"
      by (simp_all add: write_out_def)
    from process_generator_calls_ok [OF b] same(1) start(1)
    have tr: "\<exists>new. calls w' = calls w @ NamespacesList # new
              \<and> (\<forall>k \<in> set new. generator_call (gcrGenerator fl c) k)"
      by auto
    have nm: "SecretName (gcrGenerator fl c) = argGCRSecretName fl"
      "IsJSONCfg (gcrGenerator fl c) = False"
      "TokenGenFxn (gcrGenerator fl c) () = getGCRAuthorizationKey fl c"
      by (simp_all add: gcrGenerator_def)
    from process_generator_ok [OF b] obtain tokenB where
      ok: "snd (getGCRAuthorizationKey fl c) = Inr tokenB"
        "\<forall>ns n. n \<noteq> argGCRSecretName fl \<longrightarrow> secrets w1 (ns, n) = secrets w (ns, n)"
        "\<forall>ns n. ns \<notin> set (namespaces w) \<or> ns = ''kube-system'' \<or> n \<noteq> ''default''
              \<longrightarrow> serviceAccounts w1 (ns, n) = serviceAccounts w (ns, n)"
        "\<forall>ns. ns \<in> set (namespaces w) \<and> ns \<noteq> ''kube-system'' \<longrightarrow>
                    secrets w1 (ns, argGCRSecretName fl) =
                      Some (generateSecretObj (AccessToken tokenB) (Endpoint tokenB) False
                              (argGCRSecretName fl))
                    \<and> (\<exists>l. serviceAccounts w (ns, ''default'') = Some l
                          \<and> serviceAccounts w1 (ns, ''default'') =
                              Some (updateImagePullSecrets (argGCRSecretName fl) l))"
      unfolding nm start by blast
    from res same tr ok show ?thesis by (simp only:) blast
  qed
  from 1 2 3 show ?thesis by blast
qed

text \<open>
  The theorem at two runs over the example cluster: one whose GCR client fails, one whose
  ECR client fails.
\<close>

theorem process_provider_failure_witness:
  "process example_flags gcr_error_controller example_world
     = (Inl (ProviderError ''denied''),
        write_out [Log ''Processing Credentials...'', Log ''getting creds was nil'']
          example_world)
   \<and> fst (process example_flags ecr_error_controller example_world)
     = Inl (ProviderError ''denied'')
   \<and> snd (process example_flags ecr_error_controller example_world)
     = write_out [Stdout ''denied'']
         (snd (process_generator (gcrGenerator example_flags ecr_error_controller)
                 (write_out [Log ''Processing Credentials...''] example_world)))
   \<and> secrets (snd (process example_flags ecr_error_controller example_world))
        (''team-a'', ''gcr-secret'')
     = Some example_secret
   \<and> serviceAccounts (snd (process example_flags ecr_error_controller example_world))
        (''team-a'', ''default'')
     = Some [LocalObjectReference ''other-reg'', LocalObjectReference ''gcr-secret'']
   \<and> secrets (snd (process example_flags ecr_error_controller example_world))
        (''team-a'', ''awsecr-cred'')
     = None
   \<and> serviceAccounts (snd (process example_flags ecr_error_controller example_world))
        (''kube-system'', ''default'')
     = Some []"
proof -
  let ?G = "process example_flags gcr_error_controller example_world"
  let ?E = "process example_flags ecr_error_controller example_world"
  let ?P = "process_generator (gcrGenerator example_flags ecr_error_controller)
              (write_out [Log ''Processing Credentials...''] example_world)"
  have hG: "getGCRAuthorizationKey example_flags gcr_error_controller
              = ([Log ''getting creds was nil''], Inl (ProviderError ''denied''))"
    by (simp add: getGCRAuthorizationKey_def example_defs)
  have hE: "getECRAuthorizationKey example_flags ecr_error_controller
              = ([Stdout ''denied''], Inl (ProviderError ''denied''))"
    by (simp add: getECRAuthorizationKey_def example_defs)
  have "fst ?P = Inr ()" by (simp add: run_defs example_defs)
  then have hP: "?P = (Inr (), snd ?P)" by (simp add: prod_eq_iff)
  have tb: "snd (getGCRAuthorizationKey example_flags ecr_error_controller)
              = Inr \<lparr>AccessToken = ''ya29'', Endpoint = ''https://gcr.io''\<rparr>"
    by (simp add: getGCRAuthorizationKey_def example_defs)
  have ex: "''team-a'' \<in> set (namespaces example_world)" "''team-a'' \<noteq> ''kube-system''"
    "argGCRSecretName example_flags = ''gcr-secret''"
    "serviceAccounts example_world (''team-a'', ''default'')
       = Some [LocalObjectReference ''other-reg'']"
    "serviceAccounts example_world (''kube-system'', ''default'') = Some []"
    "secrets example_world (''team-a'', ''awsecr-cred'') = None"
    "''awsecr-cred'' \<noteq> ''gcr-secret''"
    by (simp_all add: example_defs)
  have pairG: "?G = (fst ?G, snd ?G)" and pairE: "?E = (fst ?E, snd ?E)" by simp_all
  from process_provider_failure [OF pairG, where lsB = "[Log ''getting creds was nil'']"
      and eB = "ProviderError ''denied''"] hG
  have 1: "fst ?G = Inl (ProviderError ''denied'')"
    "snd ?G = write_out [Log ''Processing Credentials...'', Log ''getting creds was nil'']
                example_world"
    by blast+
  note th = process_provider_failure [OF pairE, where lsA = "[Stdout ''denied'']"
      and eA = "ProviderError ''denied''" and u = "()" and ?w1.0 = "snd ?P"]
  from th hE hP have 2: "fst ?E = Inl (ProviderError ''denied'')"
    "snd ?E = write_out [Stdout ''denied''] (snd ?P)"
    by blast+
  from th hE hP obtain tokenB where
    t: "snd (getGCRAuthorizationKey example_flags ecr_error_controller) = Inr tokenB"
    and s: "\<forall>ns. ns \<in> set (namespaces example_world) \<and> ns \<noteq> ''kube-system'' \<longrightarrow>
              secrets (snd ?E) (ns, argGCRSecretName example_flags) =
                Some (generateSecretObj (AccessToken tokenB) (Endpoint tokenB) False
                        (argGCRSecretName example_flags))
              \<and> (\<exists>l. serviceAccounts example_world (ns, ''default'') = Some l
                    \<and> serviceAccounts (snd ?E) (ns, ''default'') =
                        Some (updateImagePullSecrets (argGCRSecretName example_flags) l))"
    by blast
  from t tb have tok: "tokenB = \<lparr>AccessToken = ''ya29'', Endpoint = ''https://gcr.io''\<rparr>"
    by simp
  from s ex have 3: "secrets (snd ?E) (''team-a'', ''gcr-secret'') = Some example_secret"
    "serviceAccounts (snd ?E) (''team-a'', ''default'')
       = Some [LocalObjectReference ''other-reg'', LocalObjectReference ''gcr-secret'']"
    by (auto simp: tok example_secret_def updateImagePullSecrets_eq)
  from th hE hP have fr:
    "\<forall>ns n. n \<noteq> argGCRSecretName example_flags \<longrightarrow>
        secrets (snd ?E) (ns, n) = secrets example_world (ns, n)"
    "\<forall>ns n. ns \<notin> set (namespaces example_world) \<or> ns = ''kube-system'' \<or> n \<noteq> ''default''
        \<longrightarrow> serviceAccounts (snd ?E) (ns, n) = serviceAccounts example_world (ns, n)"
    by blast+
  from fr ex have 4: "secrets (snd ?E) (''team-a'', ''awsecr-cred'') = None"
    "serviceAccounts (snd ?E) (''kube-system'', ''default'') = Some []"
    by auto
  from 1 2 3 4 show ?thesis by (simp add: prod_eq_iff)
qed

subsection \<open>C2: failures of the ECR provider\<close>

text \<open>
  Claim C2 as stated fails twice. On a response with no authorization entry the fetch
  panics instead of returning an error. And when the remote call returns an error, the
  run reports it after the first generator's pass has gone through \<^verbatim>\<open>team-a\<close>.
\<close>

theorem getECR_failure_counterexample:
  "getECRAuthorizationKey example_flags no_entries_controller
     = ([], Inl (Panic ''index out of range''))
   \<and> getECRAuthorizationKey example_flags ecr_error_controller
     = ([Stdout ''denied''], Inl (ProviderError ''denied''))
   \<and> fst (process example_flags ecr_error_controller example_world)
     = Inl (ProviderError ''denied'')
   \<and> calls (snd (process example_flags ecr_error_controller example_world))
     = [NamespacesList,
        SecretsGet ''team-a'' ''gcr-secret'',
        SecretsCreate ''team-a''
          (generateSecretObj ''ya29'' ''https://gcr.io'' False ''gcr-secret''),
        ServiceAccountsGet ''team-a'' ''default'',
        ServiceAccountsUpdate ''team-a''
          \<lparr>Name = ''default'',
           ImagePullSecrets =
             [LocalObjectReference ''other-reg'', LocalObjectReference ''gcr-secret'']\<rparr>]"
  by (simp add: run_defs example_defs)

text \<open>
  Claim C2, amended. When the remote call of the ECR client returns an error, the fetch
  prints it and returns it as a provider error, with no token, and every run fails. The
  fetch is made after the pass of the first generator (GCR): when that pass fails, the
  run returns its failure and leaves the world as the pass left it; when it succeeds,
  the run returns the provider error and the world the pass left with the printed error
  added, so that the output ends with the line that closes the first pass followed by
  the error, the calls are those of the first pass, beginning with the list of the
  namespaces, and every listed namespace other than \<^verbatim>\<open>kube-system\<close> holds the first
  generator's secret. In either case the calls, secrets and service accounts are those
  the first pass left: every call is one of the first generator's, no secret under
  another name than the first generator's is changed, and a service account is as
  before or is the default account of a listed namespace with the first generator's
  secret name appended to its list if it was absent.
\<close>

theorem getECR_remote_error:
  assumes "ecrClient c [awsAccountID fl] = Inl err"
    and "process fl c w = (r, w')"
    and "process_generator (gcrGenerator fl c)
           (write_out [Log ''Processing Credentials...''] w) = (r1, w1)"
  shows "getECRAuthorizationKey fl c = ([Stdout err], Inl (ProviderError err))
         \<and> (\<exists>e. r = Inl e)
         \<and> (case r1 of
               Inl e1 \<Rightarrow> r = Inl e1 \<and> w' = w1
             | Inr _ \<Rightarrow>
                 r = Inl (ProviderError err) \<and> w' = write_out [Stdout err] w1
                 \<and> printed w' =
                     printed w @ [Log ''Processing Credentials...'']
                       @ fst (getGCRAuthorizationKey fl c)
                       @ [Log (''Finished processing secret for: '' @ argGCRSecretName fl),
                          Stdout err]
                 \<and> (\<exists>new. calls w' = calls w @ NamespacesList # new)
                 \<and> (\<exists>tokenB. snd (getGCRAuthorizationKey fl c) = Inr tokenB
                       \<and> (\<forall>ns. ns \<in> set (namespaces w) \<and> ns \<noteq> ''kube-system'' \<longrightarrow>
                             secrets w' (ns, argGCRSecretName fl) =
                               Some (generateSecretObj (AccessToken tokenB) (Endpoint tokenB)
                                       False (argGCRSecretName fl)))))
         \<and> calls w' = calls w1 \<and> secrets w' = secrets w1
         \<and> serviceAccounts w' = serviceAccounts w1
         \<and> (\<exists>new. calls w' = calls w @ new
               \<and> (\<forall>k \<in> set new. generator_call (gcrGenerator fl c) k))
         \<and> (\<forall>ns n. n \<noteq> argGCRSecretName fl \<longrightarrow> secrets w' (ns, n) = secrets w (ns, n))
         \<and> (\<forall>k. serviceAccounts w' k = serviceAccounts w k
               \<or> (\<exists>ns l. k = (ns, ''default'') \<and> ns \<in> set (namespaces w)
                     \<and> ns \<noteq> ''kube-system'' \<and> serviceAccounts w k = Some l
                     \<and> serviceAccounts w' k =
                         Some (updateImagePullSecrets (argGCRSecretName fl) l)))"
proof -
  let ?start = "write_out [Log ''Processing Credentials...''] w"
  from assms(1) have f: "getECRAuthorizationKey fl c = ([Stdout err], Inl (ProviderError err))"
    by (simp add: getECRAuthorizationKey_def)
  note exact = process_ecr_fetch_fails_exact [OF f assms(3), of ]
  have start: "calls ?start = calls w" "secrets ?start = secrets w"
    "serviceAccounts ?start = serviceAccounts w" "namespaces ?start = namespaces w"
    "printed ?start = printed w @ [Log ''Processing Credentials...'']"
    by (simp_all add: write_out_def)
  have nm: "SecretName (gcrGenerator fl c) = argGCRSecretName fl"
    "IsJSONCfg (gcrGenerator fl c) = False"
    "TokenGenFxn (gcrGenerator fl c) () = getGCRAuthorizationKey fl c"
    by (simp_all add: gcrGenerator_def)
  have same: "calls w' = calls w1" "secrets w' = secrets w1"
    "serviceAccounts w' = serviceAccounts w1" and fails: "\<exists>e. r = Inl e"
    using exact assms(2) by (cases r1; simp add: write_out_def)+
  have cs: "case r1 of
               Inl e1 \<Rightarrow> r = Inl e1 \<and> w' = w1
             | Inr _ \<Rightarrow>
                 r = Inl (ProviderError err) \<and> w' = write_out [Stdout err] w1
                 \<and> printed w' =
                     printed w @ [Log ''Processing Credentials...'']
                       @ fst (getGCRAuthorizationKey fl c)
                       @ [Log (''Finished processing secret for: '' @ argGCRSecretName fl),
                          Stdout err]
                 \<and> (\<exists>new. calls w' = calls w @ NamespacesList # new)
                 \<and> (\<exists>tokenB. snd (getGCRAuthorizationKey fl c) = Inr tokenB
                       \<and> (\<forall>ns. ns \<in> set (namespaces w) \<and> ns \<noteq> ''kube-system'' \<longrightarrow>
                             secrets w' (ns, argGCRSecretName fl) =
                               Some (generateSecretObj (AccessToken tokenB) (Endpoint tokenB)
                                       False (argGCRSecretName fl))))"
  proof (cases r1)
    case (Inl e1)
    with exact assms(2) show ?thesis by simp
  next
    case (Inr u)
    with assms(3) have b: "process_generator (gcrGenerator fl c) ?start = (Inr u, w1)" by simp
    from exact assms(2) Inr have res: "r = Inl (ProviderError err)"
      "w' = write_out [Stdout err] w1" by simp_all
    from process_generator_printed_ok [OF b] res(2)
    have pr: "printed w' =
                printed w @ [Log ''Processing Credentials...'']
                  @ fst (getGCRAuthorizationKey fl c)
                  @ [Log (''Finished processing secret for: '' @ argGCRSecretName fl),
                     Stdout err]"
      by (simp add: nm start write_out_def)
    from process_generator_calls_ok [OF b] same(1) start(1)
    have tr: "\<exists>new. calls w' = calls w @ NamespacesList # new" by auto
    from process_generator_ok [OF b] same(2)
    have ok: "\<exists>tokenB. snd (getGCRAuthorizationKey fl c) = Inr tokenB
                \<and> (\<forall>ns. ns \<in> set (namespaces w) \<and> ns \<noteq> ''kube-system'' \<longrightarrow>
                      secrets w' (ns, argGCRSecretName fl) =
                        Some (generateSecretObj (AccessToken tokenB) (Endpoint tokenB)
                                False (argGCRSecretName fl)))"
      unfolding nm start by auto
    from res pr tr ok Inr show ?thesis by simp
  qed
  from process_generator_calls [OF assms(3)] same(1) start(1)
  have tr: "\<exists>new. calls w' = calls w @ new
               \<and> (\<forall>k \<in> set new. generator_call (gcrGenerator fl c) k)"
    by auto
  from process_generator_frame [OF assms(3)] same(2)
  have fs: "\<forall>ns n. n \<noteq> argGCRSecretName fl \<longrightarrow> secrets w' (ns, n) = secrets w (ns, n)"
    unfolding nm start by simp
  have fa: "\<forall>k. serviceAccounts w' k = serviceAccounts w k
               \<or> (\<exists>ns l. k = (ns, ''default'') \<and> ns \<in> set (namespaces w)
                     \<and> ns \<noteq> ''kube-system'' \<and> serviceAccounts w k = Some l
                     \<and> serviceAccounts w' k =
                         Some (updateImagePullSecrets (argGCRSecretName fl) l))"
    using process_generator_cases [OF assms(3)] same(3)
    unfolding nm start by simp
  from f fails cs same tr fs fa show ?thesis by (simp only: simp_thms)
qed

text \<open>The theorem at the example cluster, with an ECR client that returns an error.\<close>

theorem getECR_remote_error_witness:
  "getECRAuthorizationKey example_flags ecr_error_controller
     = ([Stdout ''denied''], Inl (ProviderError ''denied''))
   \<and> fst (process example_flags ecr_error_controller example_world)
     = Inl (ProviderError ''denied'')
   \<and> printed (snd (process example_flags ecr_error_controller example_world))
     = [Log ''Processing Credentials...'',
        Log ''Finished processing secret for: gcr-secret'', Stdout ''denied'']
   \<and> calls (snd (process example_flags ecr_error_controller example_world))
     = calls (snd (process_generator (gcrGenerator example_flags ecr_error_controller)
                     (write_out [Log ''Processing Credentials...''] example_world)))
   \<and> secrets (snd (process example_flags ecr_error_controller example_world))
        (''team-a'', ''awsecr-cred'') = None"
proof -
  let ?E = "process example_flags ecr_error_controller example_world"
  let ?P = "process_generator (gcrGenerator example_flags ecr_error_controller)
              (write_out [Log ''Processing Credentials...''] example_world)"
  have h: "ecrClient ecr_error_controller [awsAccountID example_flags] = Inl ''denied''"
    by (simp add: ecr_error_controller_def)
  have pairE: "?E = (fst ?E, snd ?E)" and pairP: "?P = (fst ?P, snd ?P)" by simp_all
  have rP: "fst ?P = Inr ()" by (simp add: run_defs example_defs)
  have ex: "printed example_world = []"
    "secrets example_world (''team-a'', ''awsecr-cred'') = None"
    "argGCRSecretName example_flags = ''gcr-secret''"
    "fst (getGCRAuthorizationKey example_flags ecr_error_controller) = []"
    "''awsecr-cred'' \<noteq> ''gcr-secret''"
    by (simp_all add: getGCRAuthorizationKey_def example_defs)
  note th = getECR_remote_error [OF h pairE pairP]
  from th have a: "getECRAuthorizationKey example_flags ecr_error_controller
     = ([Stdout ''denied''], Inl (ProviderError ''denied''))"
    and c: "calls (snd ?E) = calls (snd ?P)"
    and s: "\<forall>ns n. n \<noteq> argGCRSecretName example_flags \<longrightarrow>
              secrets (snd ?E) (ns, n) = secrets example_world (ns, n)"
    by blast+
  note th' = th [unfolded rP sum.case]
  from th' have b: "fst ?E = Inl (ProviderError ''denied'')"
    and p: "printed (snd ?E) =
              printed example_world @ [Log ''Processing Credentials...'']
                @ fst (getGCRAuthorizationKey example_flags ecr_error_controller)
                @ [Log (''Finished processing secret for: ''
                        @ argGCRSecretName example_flags), Stdout ''denied'']"
    by blast+
  from s ex have d: "secrets (snd ?E) (''team-a'', ''awsecr-cred'') = None" by auto
  from p ex have p': "printed (snd ?E)
     = [Log ''Processing Credentials...'',
        Log ''Finished processing secret for: gcr-secret'', Stdout ''denied'']"
    by simp
  from a b c d p' show ?thesis by simp
qed

subsection \<open>C3: the state after a successful run\<close>

text \<open>
  Claim C3 as stated fails. A default service account that lists \<^verbatim>\<open>gcr-secret\<close> twice
  still lists it twice after a successful run: the scan stops at the first entry with the
  name and nothing removes the second.
\<close>

theorem process_success_counterexample:
  "fst (process example_flags example_controller duplicates_world) = Inr ()
   \<and> serviceAccounts (snd (process example_flags example_controller duplicates_world))
        (''team-a'', ''default'')
     = Some [LocalObjectReference ''gcr-secret'', LocalObjectReference ''gcr-secret'',
             LocalObjectReference ''awsecr-cred'']
   \<and> count_refs ''gcr-secret''
        [LocalObjectReference ''gcr-secret'', LocalObjectReference ''gcr-secret'',
         LocalObjectReference ''awsecr-cred''] = 2"
  by (simp add: run_defs example_defs count_refs_def)

text \<open>
  Claim C3, amended. After a successful run, every listed namespace other than
  \<^verbatim>\<open>kube-system\<close> holds the ECR secret materialized from the token fetched in that run,
  and the GCR secret likewise when the two secret names differ. The list of its default
  service account is the old list with each of the two names appended if it was absent:
  the old entries stay in place, a name is listed once if it was listed at most once
  before and as often as before otherwise, and other names are listed as often as before.
\<close>

theorem process_success_invariant:
  assumes "process fl c w = (Inr u, w')"
    and "ns \<in> set (namespaces w)" and "ns \<noteq> ''kube-system''"
  shows "\<exists>tokenB tokenA l l'.
           snd (getGCRAuthorizationKey fl c) = Inr tokenB
         \<and> snd (getECRAuthorizationKey fl c) = Inr tokenA
         \<and> secrets w' (ns, argAWSSecretName fl) =
             Some (generateSecretObj (AccessToken tokenA) (Endpoint tokenA) True
                     (argAWSSecretName fl))
         \<and> (argGCRSecretName fl \<noteq> argAWSSecretName fl \<longrightarrow>
               secrets w' (ns, argGCRSecretName fl) =
                 Some (generateSecretObj (AccessToken tokenB) (Endpoint tokenB) False
                         (argGCRSecretName fl)))
         \<and> serviceAccounts w (ns, ''default'') = Some l
         \<and> serviceAccounts w' (ns, ''default'') = Some l'
         \<and> l' = updateImagePullSecrets (argAWSSecretName fl)
                  (updateImagePullSecrets (argGCRSecretName fl) l)
         \<and> prefix l l'
         \<and> count_refs (argGCRSecretName fl) l' = max 1 (count_refs (argGCRSecretName fl) l)
         \<and> count_refs (argAWSSecretName fl) l' = max 1 (count_refs (argAWSSecretName fl) l)
         \<and> (\<forall>n. n \<noteq> argGCRSecretName fl \<and> n \<noteq> argAWSSecretName fl \<longrightarrow>
                count_refs n l' = count_refs n l)"
proof -
  let ?gcr = "argGCRSecretName fl" and ?aws = "argAWSSecretName fl"
  from process_success [OF assms(1)] obtain w1 where
    g1: "process_generator (gcrGenerator fl c)
           (write_out [Log ''Processing Credentials...''] w) = (Inr (), w1)"
    and g2: "process_generator (ecrGenerator fl c) w1 = (Inr (), w')"
    by blast
  from process_generator_ok [OF g1] assms(2,3) obtain tokenB l where
    b: "snd (getGCRAuthorizationKey fl c) = Inr tokenB"
      "namespaces w1 = namespaces w"
      "secrets w1 (ns, ?gcr) =
         Some (generateSecretObj (AccessToken tokenB) (Endpoint tokenB) False ?gcr)"
      "serviceAccounts w (ns, ''default'') = Some l"
      "serviceAccounts w1 (ns, ''default'') = Some (updateImagePullSecrets ?gcr l)"
    by (auto simp: gcrGenerator_def write_out_def)
  from process_generator_ok [OF g2] assms(2,3) b(2,5) obtain tokenA where
    a: "snd (getECRAuthorizationKey fl c) = Inr tokenA"
      "secrets w' (ns, ?aws) =
         Some (generateSecretObj (AccessToken tokenA) (Endpoint tokenA) True ?aws)"
      "serviceAccounts w' (ns, ''default'') =
         Some (updateImagePullSecrets ?aws (updateImagePullSecrets ?gcr l))"
      "\<forall>ns n. n \<noteq> ?aws \<longrightarrow> secrets w' (ns, n) = secrets w1 (ns, n)"
    by (auto simp: ecrGenerator_def)
  define l' where "l' = updateImagePullSecrets ?aws (updateImagePullSecrets ?gcr l)"
  have p: "prefix l l'"
    unfolding l'_def
    using prefix_updateImagePullSecrets prefix_order.trans by blast
  have cg: "count_refs ?gcr l' = max 1 (count_refs ?gcr l)"
    unfolding l'_def
    by (cases "?gcr = ?aws")
      (simp_all add: updateImagePullSecrets_idem count_refs_update count_refs_update_other)
  have ca: "count_refs ?aws l' = max 1 (count_refs ?aws l)"
    unfolding l'_def
    by (cases "?gcr = ?aws")
      (simp_all add: updateImagePullSecrets_idem count_refs_update count_refs_update_other)
  have co: "\<forall>n. n \<noteq> ?gcr \<and> n \<noteq> ?aws \<longrightarrow> count_refs n l' = count_refs n l"
    unfolding l'_def by (simp add: count_refs_update_other)
  have sg: "?gcr \<noteq> ?aws \<longrightarrow> secrets w' (ns, ?gcr) =
                 Some (generateSecretObj (AccessToken tokenB) (Endpoint tokenB) False ?gcr)"
    using a(4) b(3) by simp
  from b(1) a(1) a(2) sg b(4) a(3) p cg ca co show ?thesis
    unfolding l'_def by blast
qed

text \<open>The theorem at the example cluster and the namespace \<^verbatim>\<open>team-a\<close>.\<close>

theorem process_success_invariant_witness:
  "fst (process example_flags example_controller example_world) = Inr ()
   \<and> secrets (snd (process example_flags example_controller example_world))
        (''team-a'', ''awsecr-cred'')
     = Some (generateSecretObj ''QVdT'' ''https://ecr'' True ''awsecr-cred'')
   \<and> secrets (snd (process example_flags example_controller example_world))
        (''team-a'', ''gcr-secret'')
     = Some (generateSecretObj ''ya29'' ''https://gcr.io'' False ''gcr-secret'')
   \<and> serviceAccounts (snd (process example_flags example_controller example_world))
        (''team-a'', ''default'')
     = Some [LocalObjectReference ''other-reg'', LocalObjectReference ''gcr-secret'',
             LocalObjectReference ''awsecr-cred'']"
proof -
  let ?w' = "snd (process example_flags example_controller example_world)"
  have r: "fst (process example_flags example_controller example_world) = Inr ()"
    by (simp add: run_defs example_defs)
  then have run: "process example_flags example_controller example_world = (Inr (), ?w')"
    by (simp add: prod_eq_iff)
  have ns: "''team-a'' \<in> set (namespaces example_world)" "''team-a'' \<noteq> ''kube-system''"
    by (simp_all add: example_world_def)
  have tb: "snd (getGCRAuthorizationKey example_flags example_controller)
              = Inr \<lparr>AccessToken = ''ya29'', Endpoint = ''https://gcr.io''\<rparr>"
    by (simp add: getGCRAuthorizationKey_def example_defs)
  have ta: "snd (getECRAuthorizationKey example_flags example_controller)
              = Inr \<lparr>AccessToken = ''QVdT'', Endpoint = ''https://ecr''\<rparr>"
    by (simp add: getECRAuthorizationKey_def example_defs)
  have l: "serviceAccounts example_world (''team-a'', ''default'')
             = Some [LocalObjectReference ''other-reg'']"
    by (simp add: example_world_def)
  have names: "argGCRSecretName example_flags = ''gcr-secret''"
    "argAWSSecretName example_flags = ''awsecr-cred''"
    by (simp_all add: example_flags_def)
  from process_success_invariant [OF run ns] tb ta l names r show ?thesis
    by (auto simp: updateImagePullSecrets_eq)
qed

subsection \<open>C4: an unexpected error of the secret lookup\<close>

text \<open>
  Claim C4 at a failing input. The get of the secret fails with a timeout. The body of the
  namespace loop goes on to the create, which succeeds, and then to the service account:
  the error of the get is not returned. When the secret is there already, the create is
  attempted all the same, and it is the error of the create that is returned.
\<close>

theorem process_namespace_get_error_creates:
  "fst (Secrets_Get ''team-a'' ''gcr-secret'' timeout_world)
     = Inl (StoreError (Unexpected ''timeout''))
   \<and> secrets timeout_world (''team-a'', ''gcr-secret'') = None
   \<and> fst (process_namespace example_generator example_secret ''team-a'' timeout_world)
     = Inr ()
   \<and> calls (snd (process_namespace example_generator example_secret ''team-a''
                   timeout_world))
     = [SecretsGet ''team-a'' ''gcr-secret'',
        SecretsCreate ''team-a'' example_secret,
        ServiceAccountsGet ''team-a'' ''default'',
        ServiceAccountsUpdate ''team-a''
          \<lparr>Name = ''default'',
           ImagePullSecrets =
             [LocalObjectReference ''other-reg'', LocalObjectReference ''gcr-secret'']\<rparr>]
   \<and> secrets timeout_stale_world (''team-a'', ''gcr-secret'')
     = Some (generateSecretObj ''stale'' ''https://gcr.io'' False ''gcr-secret'')
   \<and> fst (process_namespace example_generator example_secret ''team-a''
            timeout_stale_world)
     = Inl (StoreError AlreadyExists)
   \<and> calls (snd (process_namespace example_generator example_secret ''team-a''
                   timeout_stale_world))
     = [SecretsGet ''team-a'' ''gcr-secret'', SecretsCreate ''team-a'' example_secret]"
  by (simp add: run_defs example_defs)

subsection \<open>C5: the two secret formats\<close>

text \<open>
  Claim C5. For every token, endpoint and name, \<open>generateSecretObj\<close> with the legacy
  format returns a secret of type \<^verbatim>\<open>kubernetes.io/dockercfg\<close> whose data has the one
  key \<^verbatim>\<open>.dockercfg\<close>, holding the endpoint and the token inside the fixed text of the
  legacy template, and with the JSON format a secret of type
  \<^verbatim>\<open>kubernetes.io/dockerconfigjson\<close> whose data has the one key
  \<^verbatim>\<open>.dockerconfigjson\<close>, holding them inside the text of the JSON template. The
  function has no failing branch: its result type is the secret itself.
\<close>

theorem generateSecretObj_formats:
  \<open>generateSecretObj token endpoint False secretName =
     \<lparr>Name = secretName,
      Data = [''.dockercfg'' \<mapsto>
        ''{"'' @ endpoint @ ''":{"username":"oauth2accesstoken","password":"'' @ token
          @ ''","email":"none"}}''],
      Type = ''kubernetes.io/dockercfg''\<rparr>
   \<and> generateSecretObj token endpoint True secretName =
     \<lparr>Name = secretName,
      Data = [''.dockerconfigjson'' \<mapsto>
        ''{"auths":{"'' @ endpoint @ ''":{"auth":"'' @ token @ ''","email":"none"}}}''],
      Type = ''kubernetes.io/dockerconfigjson''\<rparr>\<close>
  by (simp add: generateSecretObj_def Sprintf_dockerCfgTemplate Sprintf_dockerJSONTemplate)

subsection \<open>C6: processing a namespace twice\<close>

text \<open>
  Claim C6 as stated fails. With a default service account that lists \<^verbatim>\<open>gcr-secret\<close>
  twice, processing the namespace twice leaves two entries of that name.
\<close>

theorem process_namespace_twice_counterexample:
  "fst (process_namespace example_generator example_secret ''team-a'' duplicates_world)
     = Inr ()
   \<and> fst (process_namespace example_generator example_secret ''team-a''
            (snd (process_namespace example_generator example_secret ''team-a''
                    duplicates_world)))
     = Inr ()
   \<and> serviceAccounts
        (snd (process_namespace example_generator example_secret ''team-a''
                (snd (process_namespace example_generator example_secret ''team-a''
                        duplicates_world))))
        (''team-a'', ''default'')
     = Some [LocalObjectReference ''gcr-secret'', LocalObjectReference ''gcr-secret'']
   \<and> SecretName example_generator = ''gcr-secret''
   \<and> count_refs ''gcr-secret''
        [LocalObjectReference ''gcr-secret'', LocalObjectReference ''gcr-secret''] = 2"
  by (simp add: run_defs example_defs count_refs_def)

text \<open>
  Claim C6, amended. When a namespace is processed twice in succession with the same
  secret and both times with success, the second time changes neither the secrets nor the
  service accounts; the secret is stored, and the list of the default service account
  extends the list from before the first time, holding the secret's name once if it held
  it at most once before, and as often as before otherwise.
\<close>

theorem process_namespace_twice:
  assumes "process_namespace g sec ns w = (Inr u, w1)"
    and "process_namespace g sec ns w1 = (Inr u', w2)"
  shows "secrets w2 = secrets w1 \<and> serviceAccounts w2 = serviceAccounts w1
         \<and> secrets w2 (ns, Name sec) = Some sec
         \<and> (\<exists>l l'. serviceAccounts w (ns, ''default'') = Some l
               \<and> serviceAccounts w2 (ns, ''default'') = Some l'
               \<and> prefix l l'
               \<and> count_refs (SecretName g) l' = max 1 (count_refs (SecretName g) l)
               \<and> (count_refs (SecretName g) l \<le> 1 \<longrightarrow> count_refs (SecretName g) l' = 1))"
proof -
  from process_namespace_ok [OF assms(1)] obtain l where
    1: "secrets w1 = (secrets w)((ns, Name sec) \<mapsto> sec)"
      "serviceAccounts w (ns, ''default'') = Some l"
      "serviceAccounts w1 =
         (serviceAccounts w)((ns, ''default'') \<mapsto> updateImagePullSecrets (SecretName g) l)"
    by blast
  from process_namespace_ok [OF assms(2)] 1 have
    2: "secrets w2 = secrets w1" "serviceAccounts w2 = serviceAccounts w1"
    by (auto simp: updateImagePullSecrets_idem)
  have "count_refs (SecretName g) (updateImagePullSecrets (SecretName g) l)
          = max 1 (count_refs (SecretName g) l)"
    by (rule count_refs_update)
  moreover have "prefix l (updateImagePullSecrets (SecretName g) l)"
    by (rule prefix_updateImagePullSecrets)
  ultimately show ?thesis using 1 2 by auto
qed

text \<open>The theorem at the example cluster and the namespace \<^verbatim>\<open>team-a\<close>.\<close>

theorem process_namespace_twice_witness:
  "fst (process_namespace example_generator example_secret ''team-a'' example_world)
     = Inr ()
   \<and> fst (process_namespace example_generator example_secret ''team-a''
            (snd (process_namespace example_generator example_secret ''team-a''
                    example_world)))
     = Inr ()
   \<and> (\<exists>l'. serviceAccounts
               (snd (process_namespace example_generator example_secret ''team-a''
                       (snd (process_namespace example_generator example_secret ''team-a''
                               example_world))))
               (''team-a'', ''default'') = Some l'
             \<and> count_refs ''gcr-secret'' l' = 1)"
proof -
  let ?w1 = "snd (process_namespace example_generator example_secret ''team-a''
                    example_world)"
  let ?w2 = "snd (process_namespace example_generator example_secret ''team-a'' ?w1)"
  have r1: "fst (process_namespace example_generator example_secret ''team-a''
                   example_world) = Inr ()"
    by (simp add: run_defs example_defs)
  have r2: "fst (process_namespace example_generator example_secret ''team-a'' ?w1) = Inr ()"
    by (simp add: run_defs example_defs)
  from r1 have p1: "process_namespace example_generator example_secret ''team-a''
                      example_world = (Inr (), ?w1)"
    by (simp add: prod_eq_iff)
  from r2 have p2: "process_namespace example_generator example_secret ''team-a'' ?w1
                      = (Inr (), ?w2)"
    by (simp add: prod_eq_iff)
  have l: "serviceAccounts example_world (''team-a'', ''default'')
             = Some [LocalObjectReference ''other-reg'']"
    by (simp add: example_world_def)
  have n: "SecretName example_generator = ''gcr-secret''"
    by (simp add: example_generator_def gcrGenerator_def example_flags_def)
  have c: "count_refs ''gcr-secret'' [LocalObjectReference ''other-reg''] = 0"
    by (simp add: count_refs_def)
  from process_namespace_twice [OF p1 p2] l n c r1 r2 show ?thesis by auto
qed

subsection \<open>C7: the system namespace\<close>

text \<open>
  Claim C7. No call that a run issues addresses the namespace \<^verbatim>\<open>kube-system\<close>: no get,
  create or update of a secret and no get or update of a service account there.
\<close>

theorem process_skips_kube_system:
  assumes "process fl c w = (r, w')"
  shows "\<exists>new. calls w' = calls w @ new
           \<and> (\<forall>k \<in> set new. call_namespace k \<noteq> Some ''kube-system'')"
  using process_calls [OF assms] generator_call_not_kube_system by blast

text \<open>
  The theorem at the example cluster, which lists \<^verbatim>\<open>kube-system\<close>: the run issues ten
  calls, none of them there.
\<close>

theorem process_skips_kube_system_witness:
  "''kube-system'' \<in> set (namespaces example_world)
   \<and> length (calls (snd (process example_flags example_controller example_world))) = 10
   \<and> list_all (\<lambda>k. call_namespace k \<noteq> Some ''kube-system'')
        (calls (snd (process example_flags example_controller example_world)))"
proof -
  let ?R = "process example_flags example_controller example_world"
  have c0: "calls example_world = []" "''kube-system'' \<in> set (namespaces example_world)"
    by (simp_all add: example_world_def)
  have len: "length (calls (snd ?R)) = 10"
    by (simp add: run_defs example_defs)
  from process_skips_kube_system [of example_flags example_controller example_world
      "fst ?R" "snd ?R"] c0 len
  show ?thesis by (simp add: list_all_iff)
qed

subsection \<open>C8: a failing run in the main loop\<close>

text \<open>
  Claim C8 as stated fails. The first run fails because the token source returns an
  error; the process goes on to wait, and nothing that was written carries the error:
  \<^verbatim>\<open>main\<close> drops what the first run returns.
\<close>

theorem main_initial_failure_counterexample:
  "fst (process example_flags token_error_controller example_world)
     = Inl (ProviderError ''denied'')
   \<and> main example_flags token_error_controller [] example_world
     = Waiting (snd (process example_flags token_error_controller example_world))
   \<and> printed (snd (process example_flags token_error_controller example_world))
     = [Log ''Processing Credentials...'']
   \<and> \<not> logged (ProviderError ''denied'')
         (printed (snd (process example_flags token_error_controller example_world)))"
  by (simp add: main_def logged_def run_defs example_defs)

text \<open>
  Claim C8, amended. When the first run returns an error, \<^verbatim>\<open>main\<close> writes nothing about
  it and goes on to the ticks from the state the run left: the process waits. When the
  run of a tick returns an error, the error is logged with \<^verbatim>\<open>log.Fatalf\<close> and the
  process exits with status 1.
\<close>

theorem main_run_failures:
  "(fst (process fl c w) = Inl err \<and> \<not> is_panic err \<longrightarrow>
      main fl c cs w = ticks fl cs (snd (process fl c w))
      \<and> main fl c [] w = Waiting (snd (process fl c w)))
   \<and> (fst (process fl c (write_out [Log ''Refreshing credentials...''] w)) = Inl err
        \<and> \<not> is_panic err \<longrightarrow>
      ticks fl (c # cs) w =
        Exited 1
          (write_out [Log (''Failed to load ecr credentials: '' @ Error err)]
             (snd (process fl c (write_out [Log ''Refreshing credentials...''] w)))))"
proof -
  have 1: "main fl c cs' w = ticks fl cs' (snd (process fl c w))"
    if "fst (process fl c w) = Inl err" "\<not> is_panic err" for cs'
    using that by (cases "process fl c w"; cases err) (simp_all add: main_def)
  have 2: "ticks fl (c # cs) w =
        Exited 1
          (write_out [Log (''Failed to load ecr credentials: '' @ Error err)]
             (snd (process fl c (write_out [Log ''Refreshing credentials...''] w))))"
    if "fst (process fl c (write_out [Log ''Refreshing credentials...''] w)) = Inl err"
      "\<not> is_panic err"
    using that
    by (cases "process fl c (write_out [Log ''Refreshing credentials...''] w)"; cases err)
      simp_all
  from 1 [of cs] 1 [of "[]"] 2 show ?thesis by simp
qed

text \<open>
  The theorem at a first run and one tick, both with a token source that returns an error.
\<close>

theorem main_run_failures_witness:
  "main example_flags token_error_controller [token_error_controller] example_world
   = Exited 1
       (example_world\<lparr>printed :=
          [Log ''Processing Credentials...'', Log ''Refreshing credentials...'',
           Log ''Processing Credentials...'', Log ''Failed to load ecr credentials: denied'']\<rparr>)"
proof -
  let ?c = "token_error_controller"
  let ?w1 = "snd (process example_flags ?c example_world)"
  have p: "\<not> is_panic (ProviderError ''denied'')" by simp
  have r1: "fst (process example_flags ?c example_world) = Inl (ProviderError ''denied'')"
    by (simp add: run_defs example_defs)
  have r2: "fst (process example_flags ?c (write_out [Log ''Refreshing credentials...''] ?w1))
              = Inl (ProviderError ''denied'')"
    by (simp add: run_defs example_defs)
  have w2: "snd (process example_flags ?c (write_out [Log ''Refreshing credentials...''] ?w1))
              = example_world\<lparr>printed :=
          [Log ''Processing Credentials...'', Log ''Refreshing credentials...'',
           Log ''Processing Credentials...'']\<rparr>"
    by (simp add: run_defs example_defs)
  from main_run_failures [of example_flags ?c example_world "ProviderError ''denied''" "[?c]"]
    r1 p
  have "main example_flags ?c [?c] example_world = ticks example_flags [?c] ?w1" by simp
  also from main_run_failures [of example_flags ?c ?w1 "ProviderError ''denied''" "[]"] r2 p
  have "ticks example_flags [?c] ?w1 =
          Exited 1 (write_out [Log (''Failed to load ecr credentials: '' @ ''denied'')]
             (snd (process example_flags ?c (write_out [Log ''Refreshing credentials...''] ?w1))))"
    by simp
  finally show ?thesis by (simp only: w2) (simp add: write_out_def example_world_def)
qed

subsection \<open>C9: the first authorization entry\<close>

text \<open>
  Claim C9. When the ECR client returns one or more authorization entries, the fetch
  returns the authorization token and the proxy endpoint of the first entry, whatever the
  further entries are.
\<close>

theorem getECR_first_entry:
  assumes "ecrClient c [awsAccountID fl] = Inr (d # ds)"
    and "AuthorizationToken d = Some t" and "ProxyEndpoint d = Some e"
  shows "getECRAuthorizationKey fl c = ([], Inr \<lparr>AccessToken = t, Endpoint = e\<rparr>)"
  using assms by (simp add: getECRAuthorizationKey_def)

text \<open>The theorem at a response of three entries, the last with nil fields.\<close>

theorem getECR_first_entry_witness:
  "getECRAuthorizationKey example_flags three_entries_controller
   = ([], Inr \<lparr>AccessToken = ''QVdT'', Endpoint = ''https://ecr''\<rparr>)"
proof -
  have r: "ecrClient three_entries_controller [awsAccountID example_flags]
             = Inr (example_entry
                    # [\<lparr>AuthorizationToken = Some ''second'',
                        ProxyEndpoint = Some ''https://other''\<rparr>,
                       \<lparr>AuthorizationToken = None, ProxyEndpoint = None\<rparr>])"
    by (simp add: three_entries_controller_def)
  have d: "AuthorizationToken example_entry = Some ''QVdT''"
    "ProxyEndpoint example_entry = Some ''https://ecr''"
    by (simp_all add: example_entry_def)
  from getECR_first_entry [OF r d] show ?thesis .
qed

subsection \<open>C10: a failure after the secret is written\<close>

text \<open>
  Claim C10. When the secret of a namespace has been written and the lookup or the update
  of the default service account fails, the body of the loop returns that failure with
  the new secret in place. The loop over the namespaces returns it at once, leaving the
  remaining namespaces alone, and so do the pass of the generator and the loop over the
  generators: the run ends there.
\<close>

theorem process_namespace_not_atomic:
  assumes "process_secret g sec ns w = (Inr u, w1)"
    and "process_serviceAccount g ns w1 = (Inl e, w2)"
    and "ns \<noteq> ''kube-system''"
  shows "process_namespace g sec ns w = (Inl e, w2)
         \<and> secrets w2 (ns, Name sec) = Some sec
         \<and> process_namespaces g sec (ns # rest) w = (Inl e, w2)
         \<and> (TokenGenFxn g () = (ls, Inr newToken)
              \<and> sec = generateSecretObj (AccessToken newToken) (Endpoint newToken)
                         (IsJSONCfg g) (SecretName g)
              \<and> Namespaces_List (write_out ls v) = (Inr (pre @ ns # rest), vl)
              \<and> process_namespaces g sec pre vl = (Inr u', w)
              \<longrightarrow> process_generator g v = (Inl e, w2)
                  \<and> process_generators (g # gs) v = (Inl e, w2))"
proof -
  from assms(1,2) have pn: "process_namespace g sec ns w = (Inl e, w2)"
    by (simp add: process_namespace_def)
  from process_secret_ok [OF assms(1)] process_serviceAccount_frame [OF assms(2)]
  have sec: "secrets w2 (ns, Name sec) = Some sec" by simp
  from pn assms(3) have loop: "process_namespaces g sec (ns # rest) w = (Inl e, w2)" by simp
  have "process_generator g v = (Inl e, w2) \<and> process_generators (g # gs) v = (Inl e, w2)"
    if "TokenGenFxn g () = (ls, Inr newToken)"
      and "sec = generateSecretObj (AccessToken newToken) (Endpoint newToken)
                         (IsJSONCfg g) (SecretName g)"
      and "Namespaces_List (write_out ls v) = (Inr (pre @ ns # rest), vl)"
      and "process_namespaces g sec pre vl = (Inr u', w)"
  proof -
    from that(4) loop have "process_namespaces g sec (pre @ ns # rest) vl = (Inl e, w2)"
      by (simp add: process_namespaces_append)
    with that(1,2,3) have "process_generator g v = (Inl e, w2)"
      by (simp add: process_generator_def)
    then show ?thesis by simp
  qed
  with pn sec loop show ?thesis by blast
qed

text \<open>
  The theorem at a cluster without service accounts: the lookup in \<^verbatim>\<open>team-a\<close> fails
  after the secret was created, and the run of both generators ends with that failure.
\<close>

theorem process_namespace_not_atomic_witness:
  "fst (process_namespace example_generator example_secret ''team-a''
          no_accounts_listed_world)
     = Inl (StoreError NotFound)
   \<and> secrets (snd (process_namespace example_generator example_secret ''team-a''
                     no_accounts_listed_world))
        (''team-a'', ''gcr-secret'')
     = Some example_secret
   \<and> process_generators
        [example_generator, ecrGenerator example_flags example_controller]
        no_accounts_world
     = process_namespace example_generator example_secret ''team-a''
         no_accounts_listed_world"
proof -
  let ?g = "example_generator"
  let ?sec = "example_secret"
  let ?v = "no_accounts_world"
  let ?w = "no_accounts_listed_world"
  let ?w1 = "snd (process_secret ?g ?sec ''team-a'' ?w)"
  let ?w2 = "snd (process_serviceAccount ?g ''team-a'' ?w1)"
  let ?token = "\<lparr>AccessToken = ''ya29'', Endpoint = ''https://gcr.io''\<rparr>"
  have "fst (process_secret ?g ?sec ''team-a'' ?w) = Inr ()"
    by (simp add: run_defs example_defs)
  then have s1: "process_secret ?g ?sec ''team-a'' ?w = (Inr (), ?w1)"
    by (simp add: prod_eq_iff)
  have "fst (process_serviceAccount ?g ''team-a'' ?w1) = Inl (StoreError NotFound)"
    by (simp add: run_defs example_defs)
  then have s2: "process_serviceAccount ?g ''team-a'' ?w1 = (Inl (StoreError NotFound), ?w2)"
    by (simp add: prod_eq_iff)
  have ns: "''team-a'' \<noteq> ''kube-system''" by simp
  have nm: "Name ?sec = ''gcr-secret''" by (simp add: example_secret_def)
  have t: "TokenGenFxn ?g () = ([], Inr ?token)"
    by (simp add: gcrGenerator_def getGCRAuthorizationKey_def example_defs)
  have sec: "?sec = generateSecretObj (AccessToken ?token) (Endpoint ?token)
                      (IsJSONCfg ?g) (SecretName ?g)"
    by (simp add: example_secret_def example_generator_def gcrGenerator_def example_flags_def)
  have nl: "Namespaces_List (write_out [] ?v) = (Inr ([''kube-system''] @ ''team-a'' # []), ?w)"
    by (simp add: Namespaces_List_def issue_def write_out_def example_defs)
  have pre: "process_namespaces ?g ?sec [''kube-system''] ?w = (Inr (), ?w)" by simp
  note th = process_namespace_not_atomic [OF s1 s2 ns, of "[]" "[]" ?token ?v
      "[''kube-system'']" ?w "()" "[ecrGenerator example_flags example_controller]"]
  from th have a: "process_namespace ?g ?sec ''team-a'' ?w = (Inl (StoreError NotFound), ?w2)"
    and b: "secrets ?w2 (''team-a'', Name ?sec) = Some ?sec"
    by blast+
  from th t sec nl pre
  have c: "process_generators [?g, ecrGenerator example_flags example_controller] ?v
             = (Inl (StoreError NotFound), ?w2)"
    by blast
  from a b c nm show ?thesis by simp
qed

end
